theory Spec2Isabelle
  imports Main "HOL-Library.Word" "HOL-Library.AList"
begin

section \<open>Data model of boskos/mason/mason.go\<close>

text \<open>
  Go's \<^verbatim>\<open>int\<close> is a 64-bit two's complement integer: \<open>+\<close> and \<open>-\<close> wrap, comparisons
  read the word as signed (\<open>sint\<close>, \<open><s\<close>). A Go map is an association list looked up
  with \<open>map_of\<close> and written with \<open>AList.update\<close>; \<^verbatim>\<open>range\<close> visits the entries in list
  order (Go leaves the order open; every order it can take is the order of some list).
  A nil map or nil slice is \<open>None\<close> where the code tells nil from empty.
\<close>

type_synonym goint = "64 word"

type_synonym UserData = "(string \<times> string) list"

type_synonym LeasedResources = "string list"

record Resource =
  Type :: string
  Name :: string
  State :: string
  UserData :: "UserData option"

type_synonym ResourceNeeds = "(string \<times> goint) list"

type_synonym TypeToResources = "(string \<times> Resource list) list"

record ConfigType =
  ConfigType_Type :: string
  ConfigType_Content :: string

text \<open>\<^verbatim>\<open>common.ResourcesConfig\<close>, with the fields mason.go reads: \<^verbatim>\<open>c.Name\<close>,
  \<^verbatim>\<open>c.Needs\<close>, \<^verbatim>\<open>c.Config.Type\<close>, \<^verbatim>\<open>c.Config.Content\<close>. The name of a configuration is
  the resource type it governs: \<^verbatim>\<open>ValidateConfig\<close> looks \<^verbatim>\<open>res.Type\<close> up among the names,
  and \<^verbatim>\<open>recycleAll\<close> collects the names into \<^verbatim>\<open>configTypes\<close>.\<close>

record ResourcesConfig =
  Config_Name :: string
  Config :: ConfigType
  Needs :: ResourceNeeds

text \<open>\<^verbatim>\<open>type requirements struct\<close>: the request handed from stage to stage.\<close>

record requirements =
  resource :: Resource
  needs :: ResourceNeeds
  fulfillment :: TypeToResources

datatype error =
    NotFound
  | ClientError string
  | StorageError string
  | UserDataNotFound string
  | YamlError string
  | Errorf string
  | ConstructError string
  | ContextCanceled
  | MultiError "error list"

text \<open>\<^verbatim>\<open>Masonable.Construct\<close> and \<^verbatim>\<open>ConfigConverter\<close>.\<close>

type_synonym Masonable = "Resource \<Rightarrow> TypeToResources \<Rightarrow> error + UserData option"

type_synonym ConfigConverter = "string \<Rightarrow> error + Masonable"

text \<open>Modelled from the spec: the constants \<^verbatim>\<open>common.Free\<close>, \<^verbatim>\<open>common.Dirty\<close>,
  \<^verbatim>\<open>common.Cleaning\<close> and \<^verbatim>\<open>common.Leased\<close> are declared in package common, outside
  mason.go. They are the state tags free, dirty, cleaning and leased.\<close>

definition Free :: string where "Free = ''free''"
definition Dirty :: string where "Dirty = ''dirty''"
definition Cleaning :: string where "Cleaning = ''cleaning''"
definition Leased :: string where "Leased = ''leased''"

text \<open>\<^verbatim>\<open>const LeasedResources = "leasedResources"\<close>.\<close>

definition LeasedResources :: string where
  "LeasedResources = ''leasedResources''"

subsection \<open>The broker, the store and the world a stage runs in\<close>

text \<open>
  Every call on \<^verbatim>\<open>boskosClient\<close> is recorded, in order, with its arguments; log entries
  are recorded with their level and format string. The three channels are queues
  (a send appends, a receive takes the head); their capacity is not modelled.
\<close>

datatype call =
    CallAcquire string string string
  | CallAcquireByState string string "string list"
  | CallReleaseOne string string
  | CallUpdateOne string string "UserData option"

datatype level = DebugLevel | InfoLevel | WarnLevel | ErrorLevel

record 's World =
  broker :: 's
  calls :: "call list"
  logs :: "(level \<times> string) list"
  pending :: "requirements list"
  fulfilled :: "requirements list"
  cleaned :: "requirements list"

text \<open>
  \<^verbatim>\<open>type Mason struct\<close>, as far as the stages read it. The broker client is any state
  machine over a state \<open>'s\<close>: each operation returns its result and the next state, so
  that every sequence of answers a stage can get, also one shaped by the calls of the
  other stages, is the behaviour of some client.
  \<^verbatim>\<open>AcquireByState\<close> returns a slice and an error, and \<^verbatim>\<open>recycleOne\<close> reads the slice
  whatever the error is. The configuration store (\<^verbatim>\<open>m.storage\<close>) and the YAML codec of
  \<^verbatim>\<open>gopkg.in/yaml.v2\<close> are parameters; a YAML error is a message.
\<close>

record 's Mason =
  client_Acquire :: "string \<Rightarrow> string \<Rightarrow> string \<Rightarrow> 's \<Rightarrow> (error + Resource) \<times> 's"
  client_AcquireByState ::
    "string \<Rightarrow> string \<Rightarrow> string list \<Rightarrow> 's \<Rightarrow> (Resource list \<times> error option) \<times> 's"
  client_ReleaseOne :: "string \<Rightarrow> string \<Rightarrow> 's \<Rightarrow> error option \<times> 's"
  client_UpdateOne :: "string \<Rightarrow> string \<Rightarrow> UserData option \<Rightarrow> 's \<Rightarrow> error option \<times> 's"
  storage_GetConfig :: "string \<Rightarrow> error + ResourcesConfig"
  storage_GetConfigs :: "error + ResourcesConfig list"
  configConverters :: "(string \<times> ConfigConverter) list"
  yaml_Unmarshal :: "string \<Rightarrow> string + LeasedResources option"
  yaml_Marshal :: "LeasedResources option \<Rightarrow> string + string"

definition logf :: "level \<Rightarrow> string \<Rightarrow> 's World \<Rightarrow> 's World" where
  "logf lvl msg w = w\<lparr>logs := logs w @ [(lvl, msg)]\<rparr>"

definition Acquire ::
  "'s Mason \<Rightarrow> string \<Rightarrow> string \<Rightarrow> string \<Rightarrow> 's World \<Rightarrow> (error + Resource) \<times> 's World" where
  "Acquire m rtype state dest w =
     (case client_Acquire m rtype state dest (broker w) of
        (r, b) \<Rightarrow> (r, w\<lparr>broker := b, calls := calls w @ [CallAcquire rtype state dest]\<rparr>))"

definition AcquireByState ::
  "'s Mason \<Rightarrow> string \<Rightarrow> string \<Rightarrow> string list \<Rightarrow> 's World
     \<Rightarrow> (Resource list \<times> error option) \<times> 's World" where
  "AcquireByState m state dest names w =
     (case client_AcquireByState m state dest names (broker w) of
        (r, b) \<Rightarrow> (r, w\<lparr>broker := b, calls := calls w @ [CallAcquireByState state dest names]\<rparr>))"

definition ReleaseOne ::
  "'s Mason \<Rightarrow> string \<Rightarrow> string \<Rightarrow> 's World \<Rightarrow> error option \<times> 's World" where
  "ReleaseOne m name dest w =
     (case client_ReleaseOne m name dest (broker w) of
        (r, b) \<Rightarrow> (r, w\<lparr>broker := b, calls := calls w @ [CallReleaseOne name dest]\<rparr>))"

definition UpdateOne ::
  "'s Mason \<Rightarrow> string \<Rightarrow> string \<Rightarrow> UserData option \<Rightarrow> 's World \<Rightarrow> error option \<times> 's World" where
  "UpdateOne m name state userData w =
     (case client_UpdateOne m name state userData (broker w) of
        (r, b) \<Rightarrow> (r, w\<lparr>broker := b, calls := calls w @ [CallUpdateOne name state userData]\<rparr>))"

subsection \<open>The user-data codec of package common\<close>

text \<open>Modelled from the spec: \<^verbatim>\<open>UserData.Extract\<close> is declared in package common, outside
  mason.go. It returns a distinguishable not-found error when the key is absent (reading a nil map
  finds nothing), and decodes the stored string otherwise.\<close>

definition Extract :: "'s Mason \<Rightarrow> UserData option \<Rightarrow> string \<Rightarrow> error + LeasedResources option" where
  "Extract m ud key =
     (case (case ud of None \<Rightarrow> None | Some al \<Rightarrow> map_of al key) of
        None \<Rightarrow> Inl (UserDataNotFound key)
      | Some content \<Rightarrow>
          (case yaml_Unmarshal m content of
             Inl msg \<Rightarrow> Inl (YamlError msg)
           | Inr out \<Rightarrow> Inr out))"

text \<open>Modelled from the spec: \<^verbatim>\<open>UserData.Set\<close> is declared in package common, outside
  mason.go. It encodes the value and stores the string under the key.\<close>

definition Set_UserData :: "'s Mason \<Rightarrow> UserData \<Rightarrow> string \<Rightarrow> LeasedResources option \<Rightarrow> error + UserData" where
  "Set_UserData m ud key v =
     (case yaml_Marshal m v of
        Inl msg \<Rightarrow> Inl (YamlError msg)
      | Inr content \<Rightarrow> Inr (AList.update key content ud))"

text \<open>Modelled from the spec: \<^verbatim>\<open>UserData.Update\<close> is declared in package common, outside
  mason.go. It merges another map by key; merging a nil map changes nothing.\<close>

definition Update_UserData :: "UserData \<Rightarrow> UserData option \<Rightarrow> UserData" where
  "Update_UserData ud new =
     (case new of
        None \<Rightarrow> ud
      | Some al \<Rightarrow> fold (\<lambda>(k, v) acc. AList.update k v acc) al ud)"

section \<open>The functions of mason.go\<close>

subsection \<open>isFulFilled\<close>

text \<open>\<^verbatim>\<open>len(resources)\<close> is the length of the slice as an integer; it is compared with
  the signed value of \<open>count\<close>.\<close>

definition isFulFilled :: "requirements \<Rightarrow> bool" where
  "isFulFilled r =
     list_all (\<lambda>(rType, count).
        case map_of (fulfillment r) rType of
          None \<Rightarrow> False
        | Some resources \<Rightarrow> \<not> (int (length resources) \<noteq> sint count))
       (needs r)"

subsection \<open>ValidateConfig\<close>

text \<open>\<open>m[k]\<close> on a map of integers: the zero value when the key is absent.\<close>

definition index0 :: "(string \<times> goint) list \<Rightarrow> string \<Rightarrow> goint" where
  "index0 al k = (case map_of al k of None \<Rightarrow> 0 | Some n \<Rightarrow> n)"

text \<open>The first loop: \<^verbatim>\<open>configNames[c.Name] = c.Needs\<close>, refusing a name seen before.\<close>

fun ValidateConfig_names ::
  "ResourcesConfig list \<Rightarrow> (string \<times> ResourceNeeds) list \<Rightarrow> error + (string \<times> ResourceNeeds) list" where
  "ValidateConfig_names [] configNames = Inr configNames"
| "ValidateConfig_names (c # cs) configNames =
     (case map_of configNames (Config_Name c) of
        Some _ \<Rightarrow> Inl (Errorf (''config '' @ Config_Name c @ '' already exists''))
      | None \<Rightarrow> ValidateConfig_names cs (AList.update (Config_Name c) (Needs c) configNames))"

text \<open>\<^verbatim>\<open>for k, v := range c { resourcesNeeds[k] += v }\<close>.\<close>

fun ValidateConfig_add :: "ResourceNeeds \<Rightarrow> (string \<times> goint) list \<Rightarrow> (string \<times> goint) list" where
  "ValidateConfig_add [] resourcesNeeds = resourcesNeeds"
| "ValidateConfig_add ((k, v) # c) resourcesNeeds =
     ValidateConfig_add c (AList.update k (index0 resourcesNeeds k + v) resourcesNeeds)"

text \<open>The second loop, over the resources. The inner lookup repeats the outer one, as
  in the source.\<close>

fun ValidateConfig_resources ::
  "(string \<times> ResourceNeeds) list \<Rightarrow> Resource list \<Rightarrow> (string \<times> goint) list \<Rightarrow> (string \<times> goint) list
     \<Rightarrow> error + ((string \<times> goint) list \<times> (string \<times> goint) list)" where
  "ValidateConfig_resources configNames [] resourcesNeeds actualResources =
     Inr (resourcesNeeds, actualResources)"
| "ValidateConfig_resources configNames (res # rest) resourcesNeeds actualResources =
     (case map_of configNames (Type res) of
        Some _ \<Rightarrow>
          (case map_of configNames (Type res) of
             None \<Rightarrow> Inl (Errorf (''resource type '' @ Type res @ '' does not have associated config''))
           | Some c \<Rightarrow>
               ValidateConfig_resources configNames rest
                 (ValidateConfig_add c resourcesNeeds)
                 (AList.update (Type res) (index0 actualResources (Type res) + 1) actualResources))
      | None \<Rightarrow>
          ValidateConfig_resources configNames rest resourcesNeeds
            (AList.update (Type res) (index0 actualResources (Type res) + 1) actualResources))"

text \<open>The third loop: every needed type exists and \<^verbatim>\<open>needs > actual\<close> fails.\<close>

fun ValidateConfig_check :: "(string \<times> goint) list \<Rightarrow> (string \<times> goint) list \<Rightarrow> error option" where
  "ValidateConfig_check [] actualResources = None"
| "ValidateConfig_check ((rType, n) # rest) actualResources =
     (case map_of actualResources rType of
        None \<Rightarrow> Some (Errorf (''need for resource '' @ rType @ '' that does not exist''))
      | Some actual \<Rightarrow>
          if actual <s n
          then Some (Errorf (''not enough resource of type '' @ rType @ '' for provisioning''))
          else ValidateConfig_check rest actualResources)"

definition ValidateConfig :: "ResourcesConfig list \<Rightarrow> Resource list \<Rightarrow> error option" where
  "ValidateConfig configs resources =
     (case ValidateConfig_names configs [] of
        Inl err \<Rightarrow> Some err
      | Inr configNames \<Rightarrow>
          (case ValidateConfig_resources configNames resources [] [] of
             Inl err \<Rightarrow> Some err
           | Inr (resourcesNeeds, actualResources) \<Rightarrow>
               ValidateConfig_check resourcesNeeds actualResources))"

subsection \<open>convertConfig, cleanOne, cleanAll\<close>

definition convertConfig :: "'s Mason \<Rightarrow> ResourcesConfig \<Rightarrow> error + Masonable" where
  "convertConfig m configEntry =
     (case map_of (configConverters m) (ConfigType_Type (Config configEntry)) of
        None \<Rightarrow> Inl (Errorf (''config type '' @ Config_Name configEntry @ '' is not supported''))
      | Some fn \<Rightarrow> fn (ConfigType_Content (Config configEntry)))"

text \<open>\<^verbatim>\<open>cleanOne\<close> writes \<^verbatim>\<open>res.UserData\<close> through its pointer: the resource is returned.\<close>

definition cleanOne ::
  "'s Mason \<Rightarrow> Resource \<Rightarrow> TypeToResources \<Rightarrow> 's World \<Rightarrow> error option \<times> Resource \<times> 's World" where
  "cleanOne m res leasedResources w =
     (case storage_GetConfig m (Type res) of
        Inl err \<Rightarrow> (Some err, res, logf ErrorLevel ''failed to get config for resource %s'' w)
      | Inr configEntry \<Rightarrow>
          (case convertConfig m configEntry of
             Inl err \<Rightarrow> (Some err, res, logf ErrorLevel ''failed to convert config type %s'' w)
           | Inr config \<Rightarrow>
               (case config res leasedResources of
                  Inl err \<Rightarrow> (Some err, res, logf ErrorLevel ''failed to construct resource %s'' w)
                | Inr userData \<Rightarrow>
                    (case UpdateOne m (Name res) (State res) userData w of
                       (Some err, w1) \<Rightarrow> (Some err, res, logf ErrorLevel ''unable to update user data'' w1)
                     | (None, w1) \<Rightarrow>
                         (None,
                          res\<lparr>UserData :=
                            (case UserData res of
                               None \<Rightarrow> userData
                             | Some ud \<Rightarrow> Some (Update_UserData ud userData))\<rparr>,
                          logf InfoLevel ''Resource %s is cleaned'' w1)))))"

text \<open>The inner loop of the failure branch of \<^verbatim>\<open>cleanAll\<close>, over one slice.\<close>

fun cleanAll_release :: "'s Mason \<Rightarrow> Resource list \<Rightarrow> 's World \<Rightarrow> 's World" where
  "cleanAll_release m [] w = w"
| "cleanAll_release m (r # rs) w =
     (case ReleaseOne m (Name r) Dirty w of
        (Some err, w1) \<Rightarrow> cleanAll_release m rs (logf ErrorLevel ''Unable to release leased resource %s'' w1)
      | (None, w1) \<Rightarrow> cleanAll_release m rs w1)"

text \<open>\<^verbatim>\<open>for _, resources := range req.fulfillment\<close>.\<close>

fun cleanAll_release_all :: "'s Mason \<Rightarrow> TypeToResources \<Rightarrow> 's World \<Rightarrow> 's World" where
  "cleanAll_release_all m [] w = w"
| "cleanAll_release_all m ((rType, resources) # rest) w =
     cleanAll_release_all m rest (cleanAll_release m resources w)"

text \<open>The body of \<^verbatim>\<open>cleanAll\<close> for one request received from \<^verbatim>\<open>m.fulfilled\<close>.\<close>

definition cleanAll_recv :: "'s Mason \<Rightarrow> requirements \<Rightarrow> 's World \<Rightarrow> 's World" where
  "cleanAll_recv m req w =
     (case cleanOne m (resource req) (fulfillment req) w of
        (Some err, res, w1) \<Rightarrow>
          (case ReleaseOne m (Name (resource req)) Dirty w1 of
             (Some err, w2) \<Rightarrow>
               cleanAll_release_all m (fulfillment req)
                 (logf ErrorLevel ''Unable to release resource %s'' w2)
           | (None, w2) \<Rightarrow> cleanAll_release_all m (fulfillment req) w2)
      | (None, res, w1) \<Rightarrow> w1\<lparr>cleaned := cleaned w1 @ [req\<lparr>resource := res\<rparr>]\<rparr>)"

text \<open>The loop of a stage: the number is how many times \<^verbatim>\<open>select\<close> takes the receive
  before it takes \<^verbatim>\<open>ctx.Done()\<close>; with its queue empty and nobody else sending, the stage
  waits for the cancellation.\<close>

fun cleanAll :: "'s Mason \<Rightarrow> nat \<Rightarrow> 's World \<Rightarrow> 's World" where
  "cleanAll m 0 w = w"
| "cleanAll m (Suc n) w =
     (case fulfilled w of
        [] \<Rightarrow> w
      | req # q \<Rightarrow> cleanAll m n (cleanAll_recv m req (w\<lparr>fulfilled := q\<rparr>)))"

subsection \<open>freeOne, freeAll\<close>

text \<open>The loop over the leased names: \<^verbatim>\<open>multierror.Append\<close> collects the errors.\<close>

fun freeOne_release ::
  "'s Mason \<Rightarrow> string \<Rightarrow> string list \<Rightarrow> error list \<Rightarrow> 's World \<Rightarrow> error list \<times> 's World" where
  "freeOne_release m resName [] allErrors w = (allErrors, w)"
| "freeOne_release m resName (name # names) allErrors w =
     (case ReleaseOne m name resName w of
        (Some err, w1) \<Rightarrow>
          freeOne_release m resName names (allErrors @ [err])
            (logf ErrorLevel ''unable to release %s to state %s'' w1)
      | (None, w1) \<Rightarrow> freeOne_release m resName names allErrors w1)"

definition freeOne :: "'s Mason \<Rightarrow> Resource \<Rightarrow> 's World \<Rightarrow> error option \<times> 's World" where
  "freeOne m res w =
     (case ReleaseOne m (Name res) Free w of
        (Some err, w1) \<Rightarrow> (Some err, logf ErrorLevel ''failed to release resource %s'' w1)
      | (None, w1) \<Rightarrow>
          (case UserData res of
             None \<Rightarrow> (Some (Errorf ''UserData is empty''), logf ErrorLevel ''failed to extract %s'' w1)
           | Some ud \<Rightarrow>
               (case Extract m (Some ud) LeasedResources of
                  Inl err \<Rightarrow> (Some err, logf ErrorLevel ''failed to extract %s'' w1)
                | Inr leasedResources \<Rightarrow>
                    (case freeOne_release m (Name res)
                            (case leasedResources of None \<Rightarrow> [] | Some names \<Rightarrow> names) [] w1 of
                       (allErrors, w2) \<Rightarrow>
                         if allErrors \<noteq> [] then (Some (MultiError allErrors), w2)
                         else (None, logf InfoLevel ''Resource %s has been freed'' w2)))))"

text \<open>The body of \<^verbatim>\<open>freeAll\<close> for one request received from \<^verbatim>\<open>m.cleaned\<close>.\<close>

definition freeAll_recv :: "'s Mason \<Rightarrow> requirements \<Rightarrow> 's World \<Rightarrow> 's World" where
  "freeAll_recv m req w =
     (case freeOne m (resource req) w of
        (Some err, w1) \<Rightarrow> w1\<lparr>cleaned := cleaned w1 @ [req]\<rparr>
      | (None, w1) \<Rightarrow> w1)"

fun freeAll :: "'s Mason \<Rightarrow> nat \<Rightarrow> 's World \<Rightarrow> 's World" where
  "freeAll m 0 w = w"
| "freeAll m (Suc n) w =
     (case cleaned w of
        [] \<Rightarrow> w
      | req # q \<Rightarrow> freeAll m n (freeAll_recv m req (w\<lparr>cleaned := q\<rparr>)))"

subsection \<open>recycleOne, recycleAll\<close>

text \<open>\<^verbatim>\<open>for _, r := range resources\<close> in \<^verbatim>\<open>recycleOne\<close>.\<close>

fun recycleOne_release :: "'s Mason \<Rightarrow> Resource list \<Rightarrow> 's World \<Rightarrow> 's World" where
  "recycleOne_release m [] w = w"
| "recycleOne_release m (r # rs) w =
     (case ReleaseOne m (Name r) Dirty w of
        (Some err, w1) \<Rightarrow> recycleOne_release m rs (logf WarnLevel ''could not release resource %s'' w1)
      | (None, w1) \<Rightarrow> recycleOne_release m rs w1)"

text \<open>\<^verbatim>\<open>recycleOne\<close> from \<^verbatim>\<open>if leasedResources != nil\<close> to its return. \<^verbatim>\<open>delete\<close> on the
  user-data writes through the pointer \<^verbatim>\<open>res\<close>; the request takes the resource after it.\<close>

definition recycleOne_reclaim ::
  "'s Mason \<Rightarrow> Resource \<Rightarrow> ResourcesConfig \<Rightarrow> LeasedResources option \<Rightarrow> 's World
     \<Rightarrow> (error + requirements) \<times> 's World" where
  "recycleOne_reclaim m res configEntry leasedResources w =
     (case leasedResources of
        None \<Rightarrow> (Inr \<lparr>resource = res, needs = Needs configEntry, fulfillment = []\<rparr>, w)
      | Some names \<Rightarrow>
          (case AcquireByState m (Name res) Leased names w of
             ((resources, err), w1) \<Rightarrow>
               (let w2 = (case err of
                            Some _ \<Rightarrow> logf WarnLevel ''could not acquire any leased resources for %s'' w1
                          | None \<Rightarrow> w1);
                    w3 = recycleOne_release m resources w2;
                    res' = res\<lparr>UserData := map_option (AList.delete LeasedResources) (UserData res)\<rparr>
                in (case UpdateOne m (Name res') (State res') (Some [(LeasedResources, [])]) w3 of
                      (Some _, w4) \<Rightarrow>
                        (Inr \<lparr>resource = res', needs = Needs configEntry, fulfillment = []\<rparr>,
                         logf ErrorLevel ''could not update resource %s with freed leased resources'' w4)
                    | (None, w4) \<Rightarrow>
                        (Inr \<lparr>resource = res', needs = Needs configEntry, fulfillment = []\<rparr>, w4)))))"

definition recycleOne ::
  "'s Mason \<Rightarrow> Resource \<Rightarrow> 's World \<Rightarrow> (error + requirements) \<times> 's World" where
  "recycleOne m res w =
     (let w0 = logf InfoLevel ''Resource %s is being recycled'' w in
      case storage_GetConfig m (Type res) of
        Inl err \<Rightarrow> (Inl err, logf ErrorLevel ''could not get config for resource type %s'' w0)
      | Inr configEntry \<Rightarrow>
          (case Extract m (UserData res) LeasedResources of
             Inl err \<Rightarrow>
               (case err of
                  UserDataNotFound _ \<Rightarrow> recycleOne_reclaim m res configEntry None w0
                | _ \<Rightarrow> (Inl err, logf ErrorLevel ''cannot parse %s from User Data'' w0))
           | Inr leasedResources \<Rightarrow> recycleOne_reclaim m res configEntry leasedResources w0))"

text \<open>The body of the loop over \<^verbatim>\<open>configTypes\<close> in \<^verbatim>\<open>recycleAll\<close>.\<close>

definition recycleAll_type :: "'s Mason \<Rightarrow> string \<Rightarrow> 's World \<Rightarrow> 's World" where
  "recycleAll_type m r w =
     (case Acquire m r Dirty Cleaning w of
        (Inl err, w1) \<Rightarrow> logf DebugLevel ''boskos acquire failed!'' w1
      | (Inr res, w1) \<Rightarrow>
          (case recycleOne m res w1 of
             (Inl err, w2) \<Rightarrow>
               (case ReleaseOne m (Name res) Dirty
                       (logf ErrorLevel ''unable to recycle resource %s'' w2) of
                  (Some _, w3) \<Rightarrow> logf ErrorLevel ''Unable to release resources %s'' w3
                | (None, w3) \<Rightarrow> w3)
           | (Inr req, w2) \<Rightarrow> w2\<lparr>pending := pending w2 @ [req]\<rparr>))"

text \<open>One iteration of \<^verbatim>\<open>recycleAll\<close>, after the timer fires.\<close>

definition recycleAll_tick :: "'s Mason \<Rightarrow> 's World \<Rightarrow> 's World" where
  "recycleAll_tick m w =
     (case storage_GetConfigs m of
        Inl err \<Rightarrow> logf ErrorLevel ''unable to get configuration'' w
      | Inr configs \<Rightarrow>
          (let configTypes = map Config_Name configs
           in fold (recycleAll_type m) configTypes w))"

fun recycleAll :: "'s Mason \<Rightarrow> nat \<Rightarrow> 's World \<Rightarrow> 's World" where
  "recycleAll m 0 w = w"
| "recycleAll m (Suc n) w = recycleAll m n (recycleAll_tick m w)"

subsection \<open>updateResources, fulfillOne, fulfillAll\<close>

fun updateResources_loop :: "'s Mason \<Rightarrow> Resource list \<Rightarrow> 's World \<Rightarrow> 's World" where
  "updateResources_loop m [] w = w"
| "updateResources_loop m (r # rs) w =
     (case UpdateOne m (Name r) (State r) None w of
        (Some err, w1) \<Rightarrow> updateResources_loop m rs (logf WarnLevel ''failed to update resource %s'' w1)
      | (None, w1) \<Rightarrow> updateResources_loop m rs w1)"

definition updateResources :: "'s Mason \<Rightarrow> requirements \<Rightarrow> 's World \<Rightarrow> 's World" where
  "updateResources m req w =
     (let resources = [resource req] @ concat (map snd (fulfillment req))
      in updateResources_loop m resources w)"

text \<open>
  \<^verbatim>\<open>for needs[rType] > 0 { select ... }\<close> on the working copy of the needs
  (\<open>remaining\<close>). The number \<open>k\<close> is how many more times
  \<^verbatim>\<open>select\<close> takes the timer before it takes \<^verbatim>\<open>ctx.Done()\<close>: every run of the loop that
  returns is the run of some \<open>k\<close>. The ticks left over are returned for the next type.
\<close>

fun fulfillOne_type ::
  "'s Mason \<Rightarrow> string \<Rightarrow> nat \<Rightarrow> ResourceNeeds \<Rightarrow> requirements \<Rightarrow> 's World
     \<Rightarrow> error option \<times> nat \<times> ResourceNeeds \<times> requirements \<times> 's World" where
  "fulfillOne_type m rType 0 remaining req w =
     (if 0 <s index0 remaining rType then (Some ContextCanceled, 0, remaining, req, w)
      else (None, 0, remaining, req, w))"
| "fulfillOne_type m rType (Suc k) remaining req w =
     (if 0 <s index0 remaining rType then
        (case Acquire m rType Free Leased (updateResources m req w) of
           (Inl err, w1) \<Rightarrow>
             fulfillOne_type m rType k remaining req (logf DebugLevel ''boskos acquire failed!'' w1)
         | (Inr res, w1) \<Rightarrow>
             fulfillOne_type m rType k
               (AList.update rType (index0 remaining rType - 1) remaining)
               (req\<lparr>fulfillment :=
                  AList.update rType
                    ((case map_of (fulfillment req) rType of None \<Rightarrow> [] | Some rs \<Rightarrow> rs) @ [res])
                    (fulfillment req)\<rparr>)
               w1)
      else (None, Suc k, remaining, req, w))"

text \<open>\<^verbatim>\<open>for rType := range needs\<close>, leaving at the first error.\<close>

fun fulfillOne_types ::
  "'s Mason \<Rightarrow> string list \<Rightarrow> nat \<Rightarrow> ResourceNeeds \<Rightarrow> requirements \<Rightarrow> 's World
     \<Rightarrow> error option \<times> nat \<times> ResourceNeeds \<times> requirements \<times> 's World" where
  "fulfillOne_types m [] k remaining req w = (None, k, remaining, req, w)"
| "fulfillOne_types m (rType # rTypes) k remaining req w =
     (case fulfillOne_type m rType k remaining req w of
        (Some err, r) \<Rightarrow> (Some err, r)
      | (None, k', remaining', req', w') \<Rightarrow> fulfillOne_types m rTypes k' remaining' req' w')"

text \<open>The acquisition loops of \<^verbatim>\<open>fulfillOne\<close>, on a copy of the needs.\<close>

definition fulfillOne_acquire ::
  "'s Mason \<Rightarrow> nat \<Rightarrow> requirements \<Rightarrow> 's World \<Rightarrow> error option \<times> requirements \<times> 's World" where
  "fulfillOne_acquire m k req w =
     (let remaining = fold (\<lambda>(t, v) acc. AList.update t v acc) (needs req) []
      in case fulfillOne_types m (map fst remaining) k remaining req w of
           (err, _, _, req', w') \<Rightarrow> (err, req', w'))"

text \<open>\<^verbatim>\<open>fulfillOne\<close> writes \<^verbatim>\<open>req.fulfillment\<close> and \<^verbatim>\<open>req.resource.UserData\<close> through its
  pointer: the request is returned.\<close>

definition fulfillOne ::
  "'s Mason \<Rightarrow> nat \<Rightarrow> requirements \<Rightarrow> 's World \<Rightarrow> error option \<times> requirements \<times> 's World" where
  "fulfillOne m k req w =
     (case fulfillOne_acquire m k req w of
        (Some err, req1, w1) \<Rightarrow> (Some err, req1, w1)
      | (None, req1, w1) \<Rightarrow>
          if isFulFilled req1 then
            (let names = concat (map (\<lambda>(rType, lr). map Name lr) (fulfillment req1));
                 leasedResources = (if names = [] then None else Some names)
             in case Set_UserData m [] LeasedResources leasedResources of
                  Inl err \<Rightarrow> (Some err, req1, logf ErrorLevel ''failed to add %s user data'' w1)
                | Inr userData \<Rightarrow>
                    (case UpdateOne m (Name (resource req1)) (State (resource req1)) (Some userData) w1 of
                       (Some err, w2) \<Rightarrow>
                         (Some err, req1, logf ErrorLevel ''Unable to release resource %s'' w2)
                     | (None, w2) \<Rightarrow>
                         (None,
                          req1\<lparr>resource := (resource req1)\<lparr>UserData :=
                            (case UserData (resource req1) of
                               None \<Rightarrow> Some userData
                             | Some ud \<Rightarrow> Some (Update_UserData ud (Some userData)))\<rparr>\<rparr>,
                          logf InfoLevel ''requirements for release %s is fulfilled'' w2)))
          else (None, req1, w1))"

fun fulfillAll_release :: "'s Mason \<Rightarrow> Resource list \<Rightarrow> 's World \<Rightarrow> 's World" where
  "fulfillAll_release m [] w = w"
| "fulfillAll_release m (res # rs) w =
     (case ReleaseOne m (Name res) Free w of
        (Some err, w1) \<Rightarrow>
          fulfillAll_release m rs
            (logf InfoLevel ''Released resource %s''
               (logf ErrorLevel ''failed to release resource %s'' w1))
      | (None, w1) \<Rightarrow> fulfillAll_release m rs (logf InfoLevel ''Released resource %s'' w1))"

fun fulfillAll_release_all :: "'s Mason \<Rightarrow> TypeToResources \<Rightarrow> 's World \<Rightarrow> 's World" where
  "fulfillAll_release_all m [] w = w"
| "fulfillAll_release_all m ((rType, resources) # rest) w =
     fulfillAll_release_all m rest (fulfillAll_release m resources w)"

text \<open>The body of \<^verbatim>\<open>fulfillAll\<close> for one request received from \<^verbatim>\<open>m.pending\<close>.\<close>

definition fulfillAll_recv :: "'s Mason \<Rightarrow> nat \<Rightarrow> requirements \<Rightarrow> 's World \<Rightarrow> 's World" where
  "fulfillAll_recv m k req w =
     (case fulfillOne m k req w of
        (Some err, req1, w1) \<Rightarrow> fulfillAll_release_all m (fulfillment req1) w1
      | (None, req1, w1) \<Rightarrow> w1\<lparr>fulfilled := fulfilled w1 @ [req1]\<rparr>)"

text \<open>The loop of the stage: one tick budget for each request it receives.\<close>

fun fulfillAll :: "'s Mason \<Rightarrow> nat list \<Rightarrow> 's World \<Rightarrow> 's World" where
  "fulfillAll m [] w = w"
| "fulfillAll m (k # ks) w =
     (case pending w of
        [] \<Rightarrow> w
      | req # q \<Rightarrow> fulfillAll m ks (fulfillAll_recv m k req (w\<lparr>pending := q\<rparr>)))"

section \<open>What ValidateConfig decides\<close>

text \<open>The needs for a type, added up in Go's \<^verbatim>\<open>int\<close> once for every resource of the census
  whose type is the name of a configuration: what \<^verbatim>\<open>resourcesNeeds\<close> holds for the type
  after the loop over the resources.\<close>

definition accumulatedNeeds :: "ResourcesConfig list \<Rightarrow> Resource list \<Rightarrow> string \<Rightarrow> goint" where
  "accumulatedNeeds configs census t =
     sum_list (map (\<lambda>res. case find (\<lambda>c. Config_Name c = Type res) configs of
                            None \<Rightarrow> 0
                          | Some c \<Rightarrow> index0 (Needs c) t) census)"

text \<open>The failures of \<^verbatim>\<open>ValidateConfig\<close> in the words of the specification: names that are
  not unique; a type in the needs of a configuration whose type appears in the census
  that is absent from the census; or fewer resources of some type than the needs for it
  summed over the configurations whose type appears in the census.\<close>

definition claimed_ValidateConfig_fails :: "ResourcesConfig list \<Rightarrow> Resource list \<Rightarrow> bool" where
  "claimed_ValidateConfig_fails configs census \<longleftrightarrow>
     \<not> distinct (map Config_Name configs)
     \<or> list_ex (\<lambda>c. Config_Name c \<in> Type ` set census
                    \<and> list_ex (\<lambda>t. t \<notin> Type ` set census) (map fst (Needs c))) configs
     \<or> list_ex (\<lambda>t. int (length (filter (\<lambda>r. Type r = t) census))
                      < sint (sum_list (map (\<lambda>c. index0 (Needs c) t)
                                (filter (\<lambda>c. Config_Name c \<in> Type ` set census) configs))))
          (concat (map (\<lambda>c. map fst (Needs c)) configs))"

section \<open>Reading the record of calls\<close>

text \<open>The calls of \<^verbatim>\<open>Acquire\<close> among the calls recorded.\<close>

fun isAcquire :: "call \<Rightarrow> bool" where
  "isAcquire (CallAcquire rtype state dest) = True"
| "isAcquire c = False"

text \<open>The calls of \<^verbatim>\<open>ReleaseOne\<close>.\<close>

fun isReleaseOne :: "call \<Rightarrow> bool" where
  "isReleaseOne (CallReleaseOne name dest) = True"
| "isReleaseOne c = False"

text \<open>The calls of the acquisition loop: a heartbeat (\<open>UpdateOne\<close> with nil user-data) or an
  \<open>Acquire\<close> from free to leased.\<close>

fun isFulfillCall :: "call \<Rightarrow> bool" where
  "isFulfillCall (CallUpdateOne name state userData) = (userData = None)"
| "isFulfillCall (CallAcquire rtype state dest) = (state = Free \<and> dest = Leased)"
| "isFulfillCall c = False"

section \<open>Example inputs\<close>

text \<open>One configuration \<open>A\<close> that needs two resources of type \<open>B\<close>, a primary \<open>a1\<close>
  and two secondaries, and a broker without state whose calls all succeed. The other
  brokers below differ from it in one operation.\<close>

definition res_a1 :: Resource where
  "res_a1 = \<lparr>Type = ''A'', Name = ''a1'', State = ''cleaning'', UserData = None\<rparr>"

definition res_a2 :: Resource where
  "res_a2 = \<lparr>Type = ''A'', Name = ''a2'', State = ''dirty'', UserData = None\<rparr>"

definition res_b1 :: Resource where
  "res_b1 = \<lparr>Type = ''B'', Name = ''b1'', State = ''leased'', UserData = None\<rparr>"

definition res_b2 :: Resource where
  "res_b2 = \<lparr>Type = ''B'', Name = ''b2'', State = ''leased'', UserData = None\<rparr>"

definition config_A :: ResourcesConfig where
  "config_A =
     \<lparr>Config_Name = ''A'',
      Config = \<lparr>ConfigType_Type = ''fake'', ConfigType_Content = ''hi''\<rparr>,
      Needs = [(''B'', 2)]\<rparr>"

definition world0 :: "unit World" where
  "world0 = \<lparr>broker = (), calls = [], logs = [], pending = [], fulfilled = [], cleaned = []\<rparr>"

definition mason_ok :: "unit Mason" where
  "mason_ok =
     \<lparr>client_Acquire = (\<lambda>rtype state dest s.
         (Inr \<lparr>Type = rtype, Name = (if rtype = ''A'' then ''a1'' else ''b1''), State = dest,
               UserData = None\<rparr>, s)),
      client_AcquireByState = (\<lambda>state dest names s.
         ((map (\<lambda>n. \<lparr>Type = ''B'', Name = n, State = dest, UserData = None\<rparr>) names, None), s)),
      client_ReleaseOne = (\<lambda>name dest s. (None, s)),
      client_UpdateOne = (\<lambda>name state userData s. (None, s)),
      storage_GetConfig = (\<lambda>rtype.
         if rtype = ''A'' then Inr config_A else Inl (StorageError ''no such config'')),
      storage_GetConfigs = Inr [config_A],
      configConverters =
        [(''fake'', \<lambda>content. Inr (\<lambda>res leased. Inr (Some [(''greeting'', content)])))],
      yaml_Unmarshal = (\<lambda>content.
         if content = ''[b1, b2]'' then Inr (Some [''b1'', ''b2'']) else Inl ''cannot unmarshal''),
      yaml_Marshal = (\<lambda>v. Inr ''[b1, b2]'')\<rparr>"


text \<open>A request for \<open>a1\<close> with both secondaries leased, and one more entry of a type the
  needs do not mention.\<close>

definition req_fulfilled :: requirements where
  "req_fulfilled =
     \<lparr>resource = res_a1, needs = [(''B'', 2)],
      fulfillment = [(''B'', [res_b1, res_b2]), (''C'', [])]\<rparr>"

text \<open>Brokers whose \<open>ReleaseOne\<close> fails: always, and for every state but free.\<close>

definition mason_release_fails :: "unit Mason" where
  "mason_release_fails =
     mason_ok\<lparr>client_ReleaseOne := (\<lambda>name dest s. (Some (ClientError ''cannot release''), s))\<rparr>"

definition mason_park_fails :: "unit Mason" where
  "mason_park_fails =
     mason_ok\<lparr>client_ReleaseOne := (\<lambda>name dest s.
       (if dest = Free then None else Some (ClientError ''cannot release''), s))\<rparr>"

text \<open>Requests as they reach the Releaser: with the lease recorded in the user-data of
  the primary, and with no user-data at all.\<close>

definition req_cleaned :: requirements where
  "req_cleaned =
     \<lparr>resource = res_a1\<lparr>UserData := Some [(''leasedResources'', ''[b1, b2]''), (''greeting'', ''hi'')]\<rparr>,
      needs = [(''B'', 2)],
      fulfillment = [(''B'', [res_b1, res_b2])]\<rparr>"

definition req_nil_userdata :: requirements where
  "req_nil_userdata = \<lparr>resource = res_a1, needs = [(''B'', 2)], fulfillment = [(''B'', [res_b1, res_b2])]\<rparr>"

text \<open>A store without the configuration of \<open>A\<close>; a broker that hands out \<open>a1\<close> with a lease
  recorded and then fails every call of the reclaim; a broker with nothing to acquire.\<close>

definition mason_no_config :: "unit Mason" where
  "mason_no_config =
     mason_ok\<lparr>storage_GetConfig := (\<lambda>rtype. Inl (StorageError ''no such config''))\<rparr>"

definition mason_reclaim_fails :: "unit Mason" where
  "mason_reclaim_fails =
     mason_ok\<lparr>client_Acquire := (\<lambda>rtype state dest s. (Inr ((resource req_cleaned)\<lparr>State := dest\<rparr>), s)),
       client_AcquireByState := (\<lambda>state dest names s.
         (([res_b1], Some (ClientError ''cannot acquire b2'')), s)),
       client_ReleaseOne := (\<lambda>name dest s. (Some (ClientError ''cannot release''), s)),
       client_UpdateOne := (\<lambda>name state userData s. (Some (ClientError ''cannot update''), s))\<rparr>"

definition mason_acquire_fails :: "unit Mason" where
  "mason_acquire_fails = mason_ok\<lparr>client_Acquire := (\<lambda>rtype state dest s. (Inl NotFound, s))\<rparr>"

text \<open>Requests as they reach the Fulfiller: two resources of type \<open>B\<close> needed, and a need
  of zero.\<close>

definition req_pending :: requirements where
  "req_pending = \<lparr>resource = res_a1, needs = [(''B'', 2)], fulfillment = []\<rparr>"

definition req_zero_need :: requirements where
  "req_zero_need = \<lparr>resource = res_a1, needs = [(''B'', 0)], fulfillment = []\<rparr>"

section \<open>Broker calls and log entries leave the rest of the world alone\<close>

lemma logf_simps [simp]:
  "calls (logf l s w) = calls w"
  "broker (logf l s w) = broker w"
  "pending (logf l s w) = pending w"
  "fulfilled (logf l s w) = fulfilled w"
  "cleaned (logf l s w) = cleaned w"
  "logs (logf l s w) = logs w @ [(l, s)]"
  by (simp_all add: logf_def)

lemma ReleaseOne_D:
  assumes "ReleaseOne m n d w = (r, w1)"
  shows "calls w1 = calls w @ [CallReleaseOne n d]"
    and "logs w1 = logs w" and "pending w1 = pending w"
    and "fulfilled w1 = fulfilled w" and "cleaned w1 = cleaned w"
    and "client_ReleaseOne m n d (broker w) = (r, broker w1)"
  using assms by (auto simp: ReleaseOne_def split: prod.splits)

lemma UpdateOne_D:
  assumes "UpdateOne m n st ud w = (r, w1)"
  shows "calls w1 = calls w @ [CallUpdateOne n st ud]"
    and "logs w1 = logs w" and "pending w1 = pending w"
    and "fulfilled w1 = fulfilled w" and "cleaned w1 = cleaned w"
    and "client_UpdateOne m n st ud (broker w) = (r, broker w1)"
  using assms by (auto simp: UpdateOne_def split: prod.splits)

lemma Acquire_D:
  assumes "Acquire m t st d w = (r, w1)"
  shows "calls w1 = calls w @ [CallAcquire t st d]"
    and "logs w1 = logs w" and "pending w1 = pending w"
    and "fulfilled w1 = fulfilled w" and "cleaned w1 = cleaned w"
    and "client_Acquire m t st d (broker w) = (r, broker w1)"
  using assms by (auto simp: Acquire_def split: prod.splits)

lemma AcquireByState_D:
  assumes "AcquireByState m st d ns w = (r, w1)"
  shows "calls w1 = calls w @ [CallAcquireByState st d ns]"
    and "logs w1 = logs w" and "pending w1 = pending w"
    and "fulfilled w1 = fulfilled w" and "cleaned w1 = cleaned w"
    and "client_AcquireByState m st d ns (broker w) = (r, broker w1)"
  using assms by (auto simp: AcquireByState_def split: prod.splits)

lemma ReleaseOne_E:
  "ReleaseOne m n d w = (r, w1) \<Longrightarrow>
     calls w1 = calls w @ [CallReleaseOne n d] \<and> logs w1 = logs w \<and> pending w1 = pending w
     \<and> fulfilled w1 = fulfilled w \<and> cleaned w1 = cleaned w"
  by (auto simp: ReleaseOne_def split: prod.splits)

lemma UpdateOne_E:
  "UpdateOne m n st ud w = (r, w1) \<Longrightarrow>
     calls w1 = calls w @ [CallUpdateOne n st ud] \<and> logs w1 = logs w \<and> pending w1 = pending w
     \<and> fulfilled w1 = fulfilled w \<and> cleaned w1 = cleaned w"
  by (auto simp: UpdateOne_def split: prod.splits)

lemma Acquire_E:
  "Acquire m t st d w = (r, w1) \<Longrightarrow>
     calls w1 = calls w @ [CallAcquire t st d] \<and> logs w1 = logs w \<and> pending w1 = pending w
     \<and> fulfilled w1 = fulfilled w \<and> cleaned w1 = cleaned w"
  by (auto simp: Acquire_def split: prod.splits)

lemma AcquireByState_E:
  "AcquireByState m st d ns w = (r, w1) \<Longrightarrow>
     calls w1 = calls w @ [CallAcquireByState st d ns] \<and> logs w1 = logs w \<and> pending w1 = pending w
     \<and> fulfilled w1 = fulfilled w \<and> cleaned w1 = cleaned w"
  by (auto simp: AcquireByState_def split: prod.splits)

section \<open>isFulFilled\<close>

lemma isFulFilled_entries:
  "isFulFilled r =
     (\<forall>(t, c) \<in> set (needs r).
        \<exists>rs. map_of (fulfillment r) t = Some rs \<and> int (length rs) = sint c)"
  by (auto simp: isFulFilled_def list_all_iff split: option.splits)

text \<open>
  C4. For a request whose needs are a map (no type listed twice), \<open>isFulFilled r\<close> is true
  exactly when every type \<open>t\<close> of \<open>needs r\<close> has an entry in \<open>fulfillment r\<close> whose length
  is \<open>needs r\<close> at \<open>t\<close>; and a second request with the same needs whose fulfillment agrees
  with that of \<open>r\<close> on the types of the needs, and is anything elsewhere, gets the same
  answer.
\<close>

theorem isFulFilled_iff:
  assumes "distinct (map fst (needs r))"
  shows "(isFulFilled r \<longleftrightarrow>
            (\<forall>t c. map_of (needs r) t = Some c \<longrightarrow>
               (\<exists>rs. map_of (fulfillment r) t = Some rs \<and> int (length rs) = sint c)))
         \<and> (\<forall>r'. needs r' = needs r \<and>
               (\<forall>t \<in> fst ` set (needs r). map_of (fulfillment r') t = map_of (fulfillment r) t)
               \<longrightarrow> isFulFilled r' = isFulFilled r)"
proof
  show "isFulFilled r \<longleftrightarrow>
          (\<forall>t c. map_of (needs r) t = Some c \<longrightarrow>
             (\<exists>rs. map_of (fulfillment r) t = Some rs \<and> int (length rs) = sint c))"
    using assms by (auto simp: isFulFilled_entries dest: map_of_SomeD)
next
  show "\<forall>r'. needs r' = needs r \<and>
          (\<forall>t \<in> fst ` set (needs r). map_of (fulfillment r') t = map_of (fulfillment r) t)
          \<longrightarrow> isFulFilled r' = isFulFilled r"
    by (force simp: isFulFilled_entries)
qed

text \<open>The request \<open>req_fulfilled\<close> is fulfilled, and stays so without its entry for \<open>C\<close>.\<close>

theorem isFulFilled_iff_witness:
  "distinct (map fst (needs req_fulfilled))
   \<and> isFulFilled req_fulfilled
   \<and> isFulFilled (req_fulfilled\<lparr>fulfillment := [(''B'', [res_b1, res_b2])]\<rparr>)"
proof -
  have d: "distinct (map fst (needs req_fulfilled))"
    by (simp add: req_fulfilled_def)
  note th = isFulFilled_iff [OF d]
  have "\<forall>t c. map_of (needs req_fulfilled) t = Some c \<longrightarrow>
          (\<exists>rs. map_of (fulfillment req_fulfilled) t = Some rs \<and> int (length rs) = sint c)"
    by (simp add: req_fulfilled_def)
  then have f: "isFulFilled req_fulfilled"
    using th by blast
  have "isFulFilled (req_fulfilled\<lparr>fulfillment := [(''B'', [res_b1, res_b2])]\<rparr>)
          = isFulFilled req_fulfilled"
    using th [THEN conjunct2, rule_format,
        of "req_fulfilled\<lparr>fulfillment := [(''B'', [res_b1, res_b2])]\<rparr>"]
    by (simp add: req_fulfilled_def)
  with d f show ?thesis by simp
qed

section \<open>ValidateConfig\<close>

lemma update_fresh: "k \<notin> fst ` set al \<Longrightarrow> AList.update k v al = al @ [(k, v)]"
  by (induction al) auto

lemma ValidateConfig_names_distinct:
  "distinct (map Config_Name cs) \<Longrightarrow> \<forall>c \<in> set cs. Config_Name c \<notin> fst ` set acc \<Longrightarrow>
     ValidateConfig_names cs acc = Inr (acc @ map (\<lambda>c. (Config_Name c, Needs c)) cs)"
proof (induction cs arbitrary: acc)
  case Nil
  show ?case by simp
next
  case (Cons c cs)
  from Cons.prems have fresh: "Config_Name c \<notin> fst ` set acc" by simp
  then have n: "map_of acc (Config_Name c) = None"
    by (simp add: map_of_eq_None_iff)
  have "\<forall>c' \<in> set cs. Config_Name c' \<notin> fst ` set (acc @ [(Config_Name c, Needs c)])"
    using Cons.prems by (auto simp: image_iff)
  with Cons.IH [of "acc @ [(Config_Name c, Needs c)]"] Cons.prems
  have "ValidateConfig_names cs (acc @ [(Config_Name c, Needs c)])
      = Inr ((acc @ [(Config_Name c, Needs c)]) @ map (\<lambda>c. (Config_Name c, Needs c)) cs)"
    by simp
  then show ?case using n fresh by (simp add: update_fresh)
qed

lemma ValidateConfig_names_duplicate:
  "\<not> (distinct (map Config_Name cs) \<and> (\<forall>c \<in> set cs. Config_Name c \<notin> fst ` set acc)) \<Longrightarrow>
     \<exists>e. ValidateConfig_names cs acc = Inl e"
proof (induction cs arbitrary: acc)
  case Nil
  then show ?case by simp
next
  case (Cons c cs)
  show ?case
  proof (cases "map_of acc (Config_Name c)")
    case (Some a)
    then show ?thesis by simp
  next
    case None
    then have fresh: "Config_Name c \<notin> fst ` set acc"
      by (simp add: map_of_eq_None_iff)
    with Cons.prems have
      "\<not> (distinct (map Config_Name cs)
          \<and> (\<forall>c' \<in> set cs. Config_Name c' \<notin> fst ` set (AList.update (Config_Name c) (Needs c) acc)))"
      by (auto simp: dom_update)
    from Cons.IH [OF this] show ?thesis using None by simp
  qed
qed

lemma map_of_config_names:
  "map_of (map (\<lambda>c. (Config_Name c, Needs c)) cs) n
     = map_option Needs (find (\<lambda>c. Config_Name c = n) cs)"
  by (induction cs) auto

lemma index0_update:
  "index0 (AList.update k v al) t = (if t = k then v else index0 al t)"
  by (simp add: index0_def update_conv')

lemma index0_Cons:
  "index0 ((k, v) # al) t = (if t = k then v else index0 al t)"
  by (simp add: index0_def)

lemma index0_absent:
  "k \<notin> fst ` set al \<Longrightarrow> index0 al k = 0"
  by (simp add: index0_def map_of_eq_None_iff [THEN iffD2])

lemma ValidateConfig_add_index0:
  "distinct (map fst c) \<Longrightarrow> index0 (ValidateConfig_add c rn) t = index0 rn t + index0 c t"
proof (induction c arbitrary: rn)
  case Nil
  show ?case by (simp add: index0_def)
next
  case (Cons kv c)
  obtain k v where kv: "kv = (k, v)" by (cases kv)
  from Cons.prems kv have d: "distinct (map fst c)" and nk: "k \<notin> fst ` set c" by auto
  have "index0 (ValidateConfig_add c (AList.update k (index0 rn k + v) rn)) t
      = index0 (AList.update k (index0 rn k + v) rn) t + index0 c t"
    by (rule Cons.IH [OF d])
  then show ?case
    using index0_absent [OF nk] by (simp add: kv index0_update index0_Cons)
qed

lemma ValidateConfig_add_keys:
  "fst ` set (ValidateConfig_add c rn) = fst ` set rn \<union> fst ` set c"
proof (induction c arbitrary: rn)
  case Nil
  show ?case by simp
next
  case (Cons kv c)
  obtain k v where kv: "kv = (k, v)" by (cases kv)
  have "fst ` set (ValidateConfig_add c (AList.update k (index0 rn k + v) rn))
      = fst ` set (AList.update k (index0 rn k + v) rn) \<union> fst ` set c"
    by (rule Cons.IH)
  then show ?case
    by (simp add: kv dom_update Un_assoc insert_commute)
qed

lemma ValidateConfig_add_distinct:
  "distinct (map fst rn) \<Longrightarrow> distinct (map fst (ValidateConfig_add c rn))"
  by (induction c arbitrary: rn) (auto simp: distinct_update)

lemma ValidateConfig_check_iff:
  "ValidateConfig_check rn ar \<noteq> None \<longleftrightarrow>
     (\<exists>(t, n) \<in> set rn. case map_of ar t of None \<Rightarrow> True | Some a \<Rightarrow> a <s n)"
  by (induction rn) (auto split: option.splits)


lemma sint_of_nat_small:
  assumes "n < 2 ^ 63"
  shows "sint (of_nat n :: goint) = int n"
proof -
  have "sint (of_nat n :: goint) = signed_take_bit 63 (int n)"
    by transfer simp
  also have "\<dots> = int n"
  proof (rule signed_take_bit_int_eq_self)
    show "- (2 ^ 63) \<le> int n" by simp
    from assms have "int n < int (2 ^ 63)" by (simp only: of_nat_less_iff)
    then show "int n < 2 ^ 63" by simp
  qed
  finally show ?thesis .
qed

text \<open>The second loop never fails; its two maps are folds over the resources.\<close>

lemma ValidateConfig_resources_folds:
  "ValidateConfig_resources cn rs rn ar =
     Inr (fold (\<lambda>res rn. case map_of cn (Type res) of None \<Rightarrow> rn | Some c \<Rightarrow> ValidateConfig_add c rn) rs rn,
          fold (\<lambda>res ar. AList.update (Type res) (index0 ar (Type res) + 1) ar) rs ar)"
  by (induction rs arbitrary: rn ar) (auto split: option.splits)

lemma actual_index0:
  "index0 (fold (\<lambda>res ar. AList.update (Type res) (index0 ar (Type res) + 1) ar) rs ar) t
     = index0 ar t + of_nat (length (filter (\<lambda>r. Type r = t) rs))"
  by (induction rs arbitrary: ar) (auto simp: index0_update)

lemma actual_keys:
  "fst ` set (fold (\<lambda>res ar. AList.update (Type res) (index0 ar (Type res) + 1) ar) rs ar)
     = fst ` set ar \<union> Type ` set rs"
  by (induction rs arbitrary: ar) (auto simp: dom_update)

lemma needed_index0:
  assumes "\<forall>n c. map_of cn n = Some c \<longrightarrow> distinct (map fst c)"
  shows "index0 (fold (\<lambda>res rn. case map_of cn (Type res) of None \<Rightarrow> rn
                                  | Some c \<Rightarrow> ValidateConfig_add c rn) rs rn) t
     = index0 rn t + sum_list (map (\<lambda>res. case map_of cn (Type res) of None \<Rightarrow> 0
                                            | Some c \<Rightarrow> index0 c t) rs)"
proof (induction rs arbitrary: rn)
  case Nil
  show ?case by simp
next
  case (Cons res rs)
  show ?case
  proof (cases "map_of cn (Type res)")
    case None
    then show ?thesis using Cons.IH [of rn] by simp
  next
    case (Some c)
    then show ?thesis
      using Cons.IH [of "ValidateConfig_add c rn"] ValidateConfig_add_index0 [of c rn t] assms
      by (simp add: add.assoc)
  qed
qed

lemma needed_keys:
  "fst ` set (fold (\<lambda>res rn. case map_of cn (Type res) of None \<Rightarrow> rn
                                  | Some c \<Rightarrow> ValidateConfig_add c rn) rs rn)
     = fst ` set rn \<union> (\<Union>res \<in> set rs. case map_of cn (Type res) of None \<Rightarrow> {}
                                            | Some c \<Rightarrow> fst ` set c)"
proof (induction rs arbitrary: rn)
  case Nil
  show ?case by simp
next
  case (Cons res rs)
  show ?case
  proof (cases "map_of cn (Type res)")
    case None
    then show ?thesis using Cons.IH [of rn] by simp
  next
    case (Some c)
    then show ?thesis
      using Cons.IH [of "ValidateConfig_add c rn"]
      by (simp add: ValidateConfig_add_keys Un_assoc)
  qed
qed

lemma needed_distinct:
  "distinct (map fst rn) \<Longrightarrow>
   distinct (map fst (fold (\<lambda>res rn. case map_of cn (Type res) of None \<Rightarrow> rn
                                  | Some c \<Rightarrow> ValidateConfig_add c rn) rs rn))"
  by (induction rs arbitrary: rn) (auto simp: ValidateConfig_add_distinct split: option.splits)


lemma ValidateConfig_check_keys:
  assumes "distinct (map fst rn)"
  shows "ValidateConfig_check rn ar \<noteq> None \<longleftrightarrow>
           (\<exists>t \<in> fst ` set rn. t \<notin> fst ` set ar \<or> index0 ar t <s index0 rn t)"
proof -
  have entry: "\<And>t n. (t, n) \<in> set rn \<Longrightarrow> index0 rn t = n"
    using assms by (simp add: index0_def)
  have "\<And>t n. (t, n) \<in> set rn \<Longrightarrow>
          (case map_of ar t of None \<Rightarrow> True | Some a \<Rightarrow> a <s n)
          = (t \<notin> fst ` set ar \<or> index0 ar t <s index0 rn t)"
  proof -
    fix t n
    assume "(t, n) \<in> set rn"
    then have n: "index0 rn t = n" by (rule entry)
    show "(case map_of ar t of None \<Rightarrow> True | Some a \<Rightarrow> a <s n)
          = (t \<notin> fst ` set ar \<or> index0 ar t <s index0 rn t)"
    proof (cases "map_of ar t")
      case None
      then have "t \<notin> fst ` set ar" by (simp add: map_of_eq_None_iff)
      with None show ?thesis by simp
    next
      case (Some a)
      then have "t \<in> fst ` set ar"
        by (metis map_of_eq_None_iff option.distinct(1))
      with Some n show ?thesis by (simp add: index0_def)
    qed
  qed
  note pointwise = this
  have "(\<exists>(t, n) \<in> set rn. case map_of ar t of None \<Rightarrow> True | Some a \<Rightarrow> a <s n)
      \<longleftrightarrow> (\<exists>(t, n) \<in> set rn. t \<notin> fst ` set ar \<or> index0 ar t <s index0 rn t)"
  proof (rule bex_cong [OF refl])
    fix x
    assume x: "x \<in> set rn"
    obtain t n where "x = (t, n)" by (cases x)
    with x pointwise [of t n]
    show "(case x of (t, n) \<Rightarrow> case map_of ar t of None \<Rightarrow> True | Some a \<Rightarrow> a <s n)
        = (case x of (t, n) \<Rightarrow> t \<notin> fst ` set ar \<or> index0 ar t <s index0 rn t)"
      by simp
  qed
  also have "\<dots> \<longleftrightarrow> (\<exists>t \<in> fst ` set rn. t \<notin> fst ` set ar \<or> index0 ar t <s index0 rn t)"
    by force
  finally show ?thesis
    by (simp only: ValidateConfig_check_iff)
qed

lemma find_by_name:
  "distinct (map Config_Name configs) \<Longrightarrow> c \<in> set configs \<Longrightarrow>
     find (\<lambda>c'. Config_Name c' = Config_Name c) configs = Some c"
  by (induction configs) (auto simp: image_iff)

lemma find_name_SomeD:
  "find (\<lambda>c'. Config_Name c' = n) configs = Some c \<Longrightarrow> c \<in> set configs \<and> Config_Name c = n"
  by (induction configs) (auto split: if_splits)

text \<open>
  C8, as it fails. One configuration \<open>A\<close> that needs two of \<open>B\<close>, and a census of two
  \<open>A\<close> and two \<open>B\<close>: the names are unique, \<open>B\<close> is in the census, and the needs summed
  over the configurations are two, yet \<^verbatim>\<open>ValidateConfig\<close> fails, as it has added the needs
  of \<open>A\<close> once for each of the two resources of type \<open>A\<close>.
\<close>

theorem ValidateConfig_counterexample:
  "ValidateConfig [config_A] [res_a1, res_a2, res_b1, res_b2]
     = Some (Errorf ''not enough resource of type B for provisioning'')
   \<and> \<not> claimed_ValidateConfig_fails [config_A] [res_a1, res_a2, res_b1, res_b2]"
  by (simp add: ValidateConfig_def claimed_ValidateConfig_fails_def config_A_def res_a1_def
      res_a2_def res_b1_def res_b2_def index0_def word_sless_alt)


text \<open>
  C8, amended. For configurations whose needs are maps and a census that is a slice
  (fewer than \<open>2 ^ 63\<close> resources), \<^verbatim>\<open>ValidateConfig\<close> fails exactly when the names of the
  configurations are not unique, or a configuration whose name is the type of a census
  resource needs a type that no census resource has, or for some type the census has
  fewer resources than \<open>accumulatedNeeds\<close>: the needs for the type added up once for each
  census resource whose type names a configuration, in 64-bit arithmetic. The function
  takes the two slices and returns the error: it has no store to write to.
\<close>

theorem ValidateConfig_fails_iff:
  assumes needs_map: "\<forall>c \<in> set configs. distinct (map fst (Needs c))"
    and slice: "length census < 2 ^ 63"
  shows "ValidateConfig configs census \<noteq> None \<longleftrightarrow>
           \<not> distinct (map Config_Name configs)
         \<or> (\<exists>c \<in> set configs. Config_Name c \<in> Type ` set census
               \<and> (\<exists>t \<in> fst ` set (Needs c). t \<notin> Type ` set census))
         \<or> (\<exists>t. int (length (filter (\<lambda>r. Type r = t) census))
                 < sint (accumulatedNeeds configs census t))"
proof (cases "distinct (map Config_Name configs)")
  case False
  then have "\<exists>e. ValidateConfig_names configs [] = Inl e"
    using ValidateConfig_names_duplicate [of configs "[]"] by simp
  then have "ValidateConfig configs census \<noteq> None"
    by (auto simp: ValidateConfig_def)
  with False show ?thesis by simp
next
  case True
  let ?cn = "map (\<lambda>c. (Config_Name c, Needs c)) configs"
  let ?rn = "fold (\<lambda>res rn. case map_of ?cn (Type res) of None \<Rightarrow> rn
                                | Some c \<Rightarrow> ValidateConfig_add c rn) census []"
  let ?ar = "fold (\<lambda>res ar. AList.update (Type res) (index0 ar (Type res) + 1) ar) census []"
  let ?count = "\<lambda>t. length (filter (\<lambda>r. Type r = t) census)"
  let ?hit = "\<lambda>c. c \<in> set configs \<and> Config_Name c \<in> Type ` set census"
  have names: "ValidateConfig_names configs [] = Inr ?cn"
    using ValidateConfig_names_distinct [OF True, of "[]"] by simp
  have run: "ValidateConfig configs census = ValidateConfig_check ?rn ?ar"
    by (simp add: ValidateConfig_def names ValidateConfig_resources_folds)
  have cn: "\<And>n. map_of ?cn n = map_option Needs (find (\<lambda>c. Config_Name c = n) configs)"
    by (rule map_of_config_names)
  have cn_map: "\<forall>n c. map_of ?cn n = Some c \<longrightarrow> distinct (map fst c)"
    using needs_map by (auto simp: cn dest!: find_name_SomeD)
  have acc: "\<And>t. index0 ?rn t = accumulatedNeeds configs census t"
  proof -
    fix t
    have "map (\<lambda>res. case map_of ?cn (Type res) of None \<Rightarrow> 0 | Some c \<Rightarrow> index0 c t) census
        = map (\<lambda>res. case find (\<lambda>c. Config_Name c = Type res) configs of None \<Rightarrow> 0
                   | Some c \<Rightarrow> index0 (Needs c) t) census"
      by (rule map_cong) (simp_all add: cn split: option.splits)
    then have "sum_list (map (\<lambda>res. case map_of ?cn (Type res) of None \<Rightarrow> 0
                                     | Some c \<Rightarrow> index0 c t) census)
        = accumulatedNeeds configs census t"
      by (simp only: accumulatedNeeds_def)
    moreover have "index0 ([] :: (string \<times> goint) list) t = 0"
      by (simp add: index0_def)
    ultimately show "index0 ?rn t = accumulatedNeeds configs census t"
      using needed_index0 [OF cn_map, of census "[]" t]
      by (simp only: add_0)
  qed
  have keys: "fst ` set ?rn = {t. \<exists>c. ?hit c \<and> t \<in> fst ` set (Needs c)}"
  proof -
    have "fst ` set ?rn = (\<Union>res \<in> set census. case map_of ?cn (Type res) of None \<Rightarrow> {}
                                            | Some c \<Rightarrow> fst ` set c)"
      using needed_keys [of ?cn census "[]"] by simp
    also have "\<dots> = {t. \<exists>c. ?hit c \<and> t \<in> fst ` set (Needs c)}"
    proof (intro set_eqI iffI)
      fix t
      assume "t \<in> (\<Union>res \<in> set census. case map_of ?cn (Type res) of None \<Rightarrow> {}
                                            | Some c \<Rightarrow> fst ` set c)"
      then obtain res needs where res: "res \<in> set census"
        and m: "map_of ?cn (Type res) = Some needs" and t: "t \<in> fst ` set needs"
        by (auto split: option.splits)
      from m obtain c where "find (\<lambda>c. Config_Name c = Type res) configs = Some c" "needs = Needs c"
        by (auto simp: cn)
      with find_name_SomeD [of "Type res" configs c] res t
      show "t \<in> {t. \<exists>c. ?hit c \<and> t \<in> fst ` set (Needs c)}"
        by auto
    next
      fix t
      assume "t \<in> {t. \<exists>c. ?hit c \<and> t \<in> fst ` set (Needs c)}"
      then obtain c res where c: "c \<in> set configs" and res: "res \<in> set census"
        and n: "Config_Name c = Type res" and t: "t \<in> fst ` set (Needs c)"
        by auto
      from find_by_name [OF True c] n have "map_of ?cn (Type res) = Some (Needs c)"
        by (simp add: cn)
      with res t show "t \<in> (\<Union>res \<in> set census. case map_of ?cn (Type res) of None \<Rightarrow> {}
                                            | Some c \<Rightarrow> fst ` set c)"
        by force
    qed
    finally show ?thesis .
  qed
  have dist: "distinct (map fst ?rn)"
    by (rule needed_distinct) simp
  have akeys: "fst ` set ?ar = Type ` set census"
    using actual_keys [of census "[]"] by simp
  have actual: "\<And>t. index0 ?ar t = of_nat (?count t)"
    using actual_index0 [of census "[]"] by (simp add: index0_def)
  have small: "\<And>t. sint (of_nat (?count t) :: goint) = int (?count t)"
  proof (rule sint_of_nat_small)
    fix t
    have "?count t \<le> length census" by simp
    from this slice show "?count t < 2 ^ 63" by (rule le_less_trans)
  qed
  have less: "\<And>t. index0 ?ar t <s index0 ?rn t
      \<longleftrightarrow> int (?count t) < sint (accumulatedNeeds configs census t)"
    by (simp add: word_sless_alt actual small acc)
  have fails: "ValidateConfig configs census \<noteq> None \<longleftrightarrow>
      (\<exists>t \<in> fst ` set ?rn. t \<notin> Type ` set census
          \<or> int (?count t) < sint (accumulatedNeeds configs census t))"
    unfolding run ValidateConfig_check_keys [OF dist] akeys less ..
  have absent: "\<And>t. t \<notin> fst ` set ?rn \<Longrightarrow>
      \<not> int (?count t) < sint (accumulatedNeeds configs census t)"
  proof -
    fix t
    assume "t \<notin> fst ` set ?rn"
    then have "index0 ?rn t = 0" by (rule index0_absent)
    then have "accumulatedNeeds configs census t = 0" by (simp add: acc)
    then show "\<not> int (?count t) < sint (accumulatedNeeds configs census t)" by simp
  qed
  have "(\<exists>t \<in> fst ` set ?rn. t \<notin> Type ` set census
          \<or> int (?count t) < sint (accumulatedNeeds configs census t))
      \<longleftrightarrow> (\<exists>c \<in> set configs. Config_Name c \<in> Type ` set census
               \<and> (\<exists>t \<in> fst ` set (Needs c). t \<notin> Type ` set census))
         \<or> (\<exists>t. int (?count t) < sint (accumulatedNeeds configs census t))"
    (is "?L \<longleftrightarrow> ?R1 \<or> ?R2")
  proof
    assume ?L
    then obtain t where t: "t \<in> fst ` set ?rn"
      and d: "t \<notin> Type ` set census \<or> int (?count t) < sint (accumulatedNeeds configs census t)"
      by blast
    from t obtain c where c: "?hit c" "t \<in> fst ` set (Needs c)"
      unfolding keys by blast
    from d show "?R1 \<or> ?R2"
    proof
      assume "t \<notin> Type ` set census"
      with c have ?R1 by blast
      then show ?thesis ..
    next
      assume "int (?count t) < sint (accumulatedNeeds configs census t)"
      then have ?R2 by blast
      then show ?thesis ..
    qed
  next
    assume "?R1 \<or> ?R2"
    then show ?L
    proof
      assume ?R1
      then obtain c t where "?hit c" "t \<in> fst ` set (Needs c)" "t \<notin> Type ` set census"
        by blast
      then have "t \<in> fst ` set ?rn" unfolding keys by blast
      with \<open>t \<notin> Type ` set census\<close> show ?L by blast
    next
      assume ?R2
      then obtain t where lt: "int (?count t) < sint (accumulatedNeeds configs census t)"
        by blast
      with absent [of t] have "t \<in> fst ` set ?rn" by blast
      with lt show ?L by blast
    qed
  qed
  with fails True show ?thesis by simp
qed

text \<open>Two \<open>A\<close> need four \<open>B\<close> and the census has two; with one \<open>A\<close> the census is
  enough.\<close>

theorem ValidateConfig_fails_iff_witness:
  "distinct (map fst (Needs config_A))
   \<and> length [res_a1, res_a2, res_b1, res_b2] < 2 ^ 63
   \<and> accumulatedNeeds [config_A] [res_a1, res_a2, res_b1, res_b2] ''B'' = 4
   \<and> ValidateConfig [config_A] [res_a1, res_a2, res_b1, res_b2] \<noteq> None
   \<and> ValidateConfig [config_A] [res_a1, res_b1, res_b2] = None"
proof -
  let ?census = "[res_a1, res_a2, res_b1, res_b2]"
  have d: "\<forall>c \<in> set [config_A]. distinct (map fst (Needs c))"
    by (simp add: config_A_def)
  have l: "length ?census < 2 ^ 63"
    by simp
  have a: "accumulatedNeeds [config_A] ?census ''B'' = 4"
    by (simp add: accumulatedNeeds_def config_A_def res_a1_def res_a2_def res_b1_def res_b2_def
        index0_def)
  have "int (length (filter (\<lambda>r. Type r = ''B'') ?census)) = 2"
    by (simp add: res_a1_def res_a2_def res_b1_def res_b2_def)
  then have "int (length (filter (\<lambda>r. Type r = ''B'') ?census))
      < sint (accumulatedNeeds [config_A] ?census ''B'')"
    unfolding a by simp
  then have f: "ValidateConfig [config_A] ?census \<noteq> None"
    using ValidateConfig_fails_iff [OF d l] by blast
  have p: "ValidateConfig [config_A] [res_a1, res_b1, res_b2] = None"
    by (simp add: ValidateConfig_def config_A_def res_a1_def res_b1_def res_b2_def index0_def
        word_sless_alt)
  from d l a f p show ?thesis by simp
qed

section \<open>The Cleaner\<close>






text \<open>What makes \<open>cleanOne\<close> fail: the configuration lookup, building the constructor,
  \<open>Construct\<close>, or the broker's \<open>UpdateOne\<close>; and the calls it has made by then.\<close>

lemma cleanOne_error_cases:
  assumes "cleanOne m res lr w = (Some err, res', w1)"
  shows "(storage_GetConfig m (Type res) = Inl err \<and> calls w1 = calls w)
       \<or> (\<exists>c. storage_GetConfig m (Type res) = Inr c \<and> convertConfig m c = Inl err
              \<and> calls w1 = calls w)
       \<or> (\<exists>c config. storage_GetConfig m (Type res) = Inr c \<and> convertConfig m c = Inr config
              \<and> config res lr = Inl err \<and> calls w1 = calls w)
       \<or> (\<exists>c config userData. storage_GetConfig m (Type res) = Inr c
              \<and> convertConfig m c = Inr config \<and> config res lr = Inr userData
              \<and> fst (UpdateOne m (Name res) (State res) userData w) = Some err
              \<and> calls w1 = calls w @ [CallUpdateOne (Name res) (State res) userData])"
  using assms
  by (auto simp: cleanOne_def split: sum.splits prod.splits option.splits dest: UpdateOne_D(1))



section \<open>The Releaser\<close>

lemma freeOne_release_D:
  assumes "freeOne_release m rn names errs w = (errs', w')"
  shows "calls w' = calls w @ map (\<lambda>n. CallReleaseOne n rn) names"
    and "cleaned w' = cleaned w"
  using assms
  by (induction names arbitrary: errs w)
     (auto split: prod.splits option.splits dest: ReleaseOne_D(1) ReleaseOne_D(5))

text \<open>
  C1, as it fails. The broker of \<open>mason_park_fails\<close> releases the primary to free and
  refuses to park \<open>b1\<close> and \<open>b2\<close> under \<open>a1\<close>: \<open>freeOne\<close> returns the two errors
  aggregated, and the request is back on the cleaned queue.
\<close>

theorem freeAll_secondary_failure_counterexample:
  "fst (ReleaseOne mason_park_fails (Name (resource req_cleaned)) Free world0) = None
   \<and> fst (freeOne mason_park_fails (resource req_cleaned) world0)
       = Some (MultiError [ClientError ''cannot release'', ClientError ''cannot release''])
   \<and> calls (freeAll_recv mason_park_fails req_cleaned world0)
       = [CallReleaseOne ''a1'' ''free'', CallReleaseOne ''b1'' ''a1'', CallReleaseOne ''b2'' ''a1'']
   \<and> cleaned (freeAll_recv mason_park_fails req_cleaned world0) = [req_cleaned]"
  by (simp add: freeAll_recv_def freeOne_def ReleaseOne_def mason_park_fails_def mason_ok_def
      req_cleaned_def res_a1_def world0_def Free_def Extract_def LeasedResources_def logf_def)

text \<open>
  C1, amended. \<open>freeAll\<close> sends the request back onto cleaned for every error of
  \<open>freeOne\<close>: when the release of the primary to free fails (that error is returned, no
  other call is made); and as well when the primary is released and the release of one
  or more leased names to the state named after the primary fails (the errors are
  aggregated and returned, after one release per leased name). With nothing else on the
  queue, the next turn of the loop runs the body on the same request again.
\<close>

theorem freeAll_reenqueues_on_error:
  "(fst (ReleaseOne m (Name (resource req)) Free w) = Some err \<longrightarrow>
      fst (freeOne m (resource req) w) = Some err
      \<and> calls (freeAll_recv m req w) = calls w @ [CallReleaseOne (Name (resource req)) Free]
      \<and> cleaned (freeAll_recv m req w) = cleaned w @ [req])
   \<and> (ReleaseOne m (Name (resource req)) Free w = (None, w1)
      \<and> UserData (resource req) = Some ud
      \<and> Extract m (Some ud) LeasedResources = Inr lr
      \<and> freeOne_release m (Name (resource req)) (case lr of None \<Rightarrow> [] | Some names \<Rightarrow> names) [] w1
          = (errs, w2)
      \<and> errs \<noteq> [] \<longrightarrow>
      fst (freeOne m (resource req) w) = Some (MultiError errs)
      \<and> calls (freeAll_recv m req w) =
          calls w @ CallReleaseOne (Name (resource req)) Free
            # map (\<lambda>n. CallReleaseOne n (Name (resource req)))
                (case lr of None \<Rightarrow> [] | Some names \<Rightarrow> names)
      \<and> cleaned (freeAll_recv m req w) = cleaned w @ [req])
   \<and> (fst (freeOne m (resource req) w) \<noteq> None \<and> cleaned w = [] \<longrightarrow>
      freeAll m (Suc n) (freeAll_recv m req w)
        = freeAll m n (freeAll_recv m req ((freeAll_recv m req w)\<lparr>cleaned := []\<rparr>)))"
proof (intro conjI impI)
  assume a: "fst (ReleaseOne m (Name (resource req)) Free w) = Some err"
  then obtain w1 where r: "ReleaseOne m (Name (resource req)) Free w = (Some err, w1)"
    by (cases "ReleaseOne m (Name (resource req)) Free w") auto
  show "fst (freeOne m (resource req) w) = Some err"
    by (simp add: freeOne_def r)
  show "calls (freeAll_recv m req w) = calls w @ [CallReleaseOne (Name (resource req)) Free]"
    using ReleaseOne_D(1) [OF r] by (simp add: freeAll_recv_def freeOne_def r)
  show "cleaned (freeAll_recv m req w) = cleaned w @ [req]"
    using ReleaseOne_D(5) [OF r] by (simp add: freeAll_recv_def freeOne_def r)
next
  assume a: "ReleaseOne m (Name (resource req)) Free w = (None, w1)
      \<and> UserData (resource req) = Some ud
      \<and> Extract m (Some ud) LeasedResources = Inr lr
      \<and> freeOne_release m (Name (resource req)) (case lr of None \<Rightarrow> [] | Some names \<Rightarrow> names) [] w1
          = (errs, w2)
      \<and> errs \<noteq> []"
  then have f: "freeOne m (resource req) w = (Some (MultiError errs), w2)"
    by (simp add: freeOne_def)
  from a have c: "calls w2 = calls w1 @ map (\<lambda>n. CallReleaseOne n (Name (resource req)))
                (case lr of None \<Rightarrow> [] | Some names \<Rightarrow> names)"
    and q: "cleaned w2 = cleaned w1"
    using freeOne_release_D by blast+
  from a have c1: "calls w1 = calls w @ [CallReleaseOne (Name (resource req)) Free]"
    and q1: "cleaned w1 = cleaned w"
    using ReleaseOne_D(1,5) by blast+
  show "fst (freeOne m (resource req) w) = Some (MultiError errs)"
    by (simp add: f)
  show "calls (freeAll_recv m req w) =
          calls w @ CallReleaseOne (Name (resource req)) Free
            # map (\<lambda>n. CallReleaseOne n (Name (resource req)))
                (case lr of None \<Rightarrow> [] | Some names \<Rightarrow> names)"
    by (simp add: freeAll_recv_def f c c1)
  show "cleaned (freeAll_recv m req w) = cleaned w @ [req]"
    by (simp add: freeAll_recv_def f q q1)
next
  assume a: "fst (freeOne m (resource req) w) \<noteq> None \<and> cleaned w = []"
  then obtain e w1 where f: "freeOne m (resource req) w = (Some e, w1)"
    by (cases "freeOne m (resource req) w") auto
  have "cleaned w1 = cleaned w"
    using f
    by (auto simp: freeOne_def split: prod.splits option.splits sum.splits if_splits
        dest!: ReleaseOne_D(5) freeOne_release_D(2))
  with a have "cleaned (freeAll_recv m req w) = [req]"
    by (simp add: freeAll_recv_def f)
  then show "freeAll m (Suc n) (freeAll_recv m req w)
        = freeAll m n (freeAll_recv m req ((freeAll_recv m req w)\<lparr>cleaned := []\<rparr>))"
    by simp
qed

text \<open>Both cases on the request \<open>req_cleaned\<close>; in the first, the second turn of the
  loop calls \<open>ReleaseOne\<close> on \<open>a1\<close> again.\<close>

theorem freeAll_reenqueues_on_error_witness:
  "fst (ReleaseOne mason_release_fails (Name (resource req_cleaned)) Free world0)
       = Some (ClientError ''cannot release'')
   \<and> fst (freeOne mason_release_fails (resource req_cleaned) world0)
       = Some (ClientError ''cannot release'')
   \<and> cleaned (freeAll_recv mason_release_fails req_cleaned world0) = [req_cleaned]
   \<and> calls (freeAll mason_release_fails (Suc 0) (freeAll_recv mason_release_fails req_cleaned world0))
       = [CallReleaseOne ''a1'' Free, CallReleaseOne ''a1'' Free]
   \<and> fst (ReleaseOne mason_park_fails (Name (resource req_cleaned)) Free world0) = None
   \<and> fst (freeOne mason_park_fails (resource req_cleaned) world0)
       = Some (MultiError [ClientError ''cannot release'', ClientError ''cannot release''])
   \<and> calls (freeAll_recv mason_park_fails req_cleaned world0)
       = [CallReleaseOne ''a1'' Free, CallReleaseOne ''b1'' ''a1'', CallReleaseOne ''b2'' ''a1'']
   \<and> cleaned (freeAll_recv mason_park_fails req_cleaned world0) = [req_cleaned]"
proof -
  let ?w1 = "world0\<lparr>calls := [CallReleaseOne ''a1'' Free]\<rparr>"
  let ?w2 = "world0\<lparr>calls := [CallReleaseOne ''a1'' Free, CallReleaseOne ''b1'' ''a1'',
                 CallReleaseOne ''b2'' ''a1''],
               logs := [(ErrorLevel, ''unable to release %s to state %s''),
                        (ErrorLevel, ''unable to release %s to state %s'')]\<rparr>"
  let ?errs = "[ClientError ''cannot release'', ClientError ''cannot release'']"
  have n: "Name (resource req_cleaned) = ''a1''"
    by (simp add: req_cleaned_def res_a1_def)
  have p1: "fst (ReleaseOne mason_release_fails (Name (resource req_cleaned)) Free world0)
       = Some (ClientError ''cannot release'')"
    by (simp add: ReleaseOne_def mason_release_fails_def mason_ok_def)
  have p2: "ReleaseOne mason_park_fails (Name (resource req_cleaned)) Free world0 = (None, ?w1)
      \<and> UserData (resource req_cleaned)
          = Some [(''leasedResources'', ''[b1, b2]''), (''greeting'', ''hi'')]
      \<and> Extract mason_park_fails (Some [(''leasedResources'', ''[b1, b2]''), (''greeting'', ''hi'')])
            LeasedResources = Inr (Some [''b1'', ''b2''])
      \<and> freeOne_release mason_park_fails (Name (resource req_cleaned))
            (case Some [''b1'', ''b2''] of None \<Rightarrow> [] | Some names \<Rightarrow> names) [] ?w1
          = (?errs, ?w2)
      \<and> ?errs \<noteq> []"
    by (simp add: n ReleaseOne_def mason_park_fails_def mason_ok_def req_cleaned_def res_a1_def
        world0_def Free_def Extract_def LeasedResources_def logf_def)
  note th1 = freeAll_reenqueues_on_error
    [of mason_release_fails req_cleaned world0 "ClientError ''cannot release''" _ _ _ _ _ 0]
  note th2 = freeAll_reenqueues_on_error
    [of mason_park_fails req_cleaned world0 _ ?w1
        "[(''leasedResources'', ''[b1, b2]''), (''greeting'', ''hi'')]"
        "Some [''b1'', ''b2'']" ?errs ?w2]
  have a: "fst (freeOne mason_release_fails (resource req_cleaned) world0)
             = Some (ClientError ''cannot release'')
         \<and> cleaned (freeAll_recv mason_release_fails req_cleaned world0) = cleaned world0 @ [req_cleaned]"
    using th1 p1 by blast
  have q: "cleaned world0 = []" and c0: "calls world0 = []"
    by (simp_all add: world0_def)
  have "freeAll mason_release_fails (Suc 0) (freeAll_recv mason_release_fails req_cleaned world0)
        = freeAll mason_release_fails 0 (freeAll_recv mason_release_fails req_cleaned
            ((freeAll_recv mason_release_fails req_cleaned world0)\<lparr>cleaned := []\<rparr>))"
    using th1 a q by simp
  moreover have "calls (freeAll_recv mason_release_fails req_cleaned
            ((freeAll_recv mason_release_fails req_cleaned world0)\<lparr>cleaned := []\<rparr>))
        = [CallReleaseOne ''a1'' Free, CallReleaseOne ''a1'' Free]"
    by (simp add: freeAll_recv_def freeOne_def ReleaseOne_def mason_release_fails_def mason_ok_def
        req_cleaned_def res_a1_def world0_def logf_def)
  ultimately have r: "calls (freeAll mason_release_fails (Suc 0)
        (freeAll_recv mason_release_fails req_cleaned world0))
      = [CallReleaseOne ''a1'' Free, CallReleaseOne ''a1'' Free]"
    by simp
  have b: "fst (freeOne mason_park_fails (resource req_cleaned) world0) = Some (MultiError ?errs)
      \<and> calls (freeAll_recv mason_park_fails req_cleaned world0) =
          calls world0 @ CallReleaseOne (Name (resource req_cleaned)) Free
            # map (\<lambda>n. CallReleaseOne n (Name (resource req_cleaned)))
                (case Some [''b1'', ''b2''] of None \<Rightarrow> [] | Some names \<Rightarrow> names)
      \<and> cleaned (freeAll_recv mason_park_fails req_cleaned world0) = cleaned world0 @ [req_cleaned]"
    using th2 p2 by blast
  show ?thesis
    using p1 a r p2 b by (simp add: q c0 n)
qed

text \<open>
  C10. For a request whose primary has nil user-data, \<open>freeAll\<close> makes one call, the
  release of the primary to free, and sends the request back onto cleaned; \<open>freeOne\<close>
  returns an error, and when the release succeeded it is the error of the nil check,
  not one of \<open>Extract\<close>.
\<close>

theorem freeOne_nil_userdata:
  assumes "UserData (resource req) = None"
  shows "calls (freeAll_recv m req w) = calls w @ [CallReleaseOne (Name (resource req)) Free]
       \<and> cleaned (freeAll_recv m req w) = cleaned w @ [req]
       \<and> fst (freeOne m (resource req) w) \<noteq> None
       \<and> (fst (ReleaseOne m (Name (resource req)) Free w) = None \<longrightarrow>
            fst (freeOne m (resource req) w) = Some (Errorf ''UserData is empty''))"
  using assms
  by (auto simp: freeAll_recv_def freeOne_def split: prod.splits option.splits
      dest: ReleaseOne_D(1) ReleaseOne_D(5))

text \<open>The request \<open>req_nil_userdata\<close> with a broker that frees \<open>a1\<close>.\<close>

theorem freeOne_nil_userdata_witness:
  "UserData (resource req_nil_userdata) = None
   \<and> fst (ReleaseOne mason_ok (Name (resource req_nil_userdata)) Free world0) = None
   \<and> calls (freeAll_recv mason_ok req_nil_userdata world0) = [CallReleaseOne ''a1'' Free]
   \<and> cleaned (freeAll_recv mason_ok req_nil_userdata world0) = [req_nil_userdata]
   \<and> fst (freeOne mason_ok (resource req_nil_userdata) world0) = Some (Errorf ''UserData is empty'')"
proof -
  have u: "UserData (resource req_nil_userdata) = None"
    and n: "Name (resource req_nil_userdata) = ''a1''"
    by (simp_all add: req_nil_userdata_def res_a1_def)
  have r: "fst (ReleaseOne mason_ok (Name (resource req_nil_userdata)) Free world0) = None"
    by (simp add: ReleaseOne_def mason_ok_def)
  have q: "cleaned world0 = []" and c0: "calls world0 = []"
    by (simp_all add: world0_def)
  show ?thesis
    using freeOne_nil_userdata [OF u, of mason_ok world0] u r by (simp add: n q c0)
qed

section \<open>The Recycler\<close>

lemma recycleOne_release_calls:
  "calls (recycleOne_release m rs w) = calls w @ map (\<lambda>r. CallReleaseOne (Name r) Dirty) rs"
  by (induction rs arbitrary: w) (auto split: prod.splits option.splits dest: ReleaseOne_D(1))

lemma recycleOne_release_pending:
  "pending (recycleOne_release m rs w) = pending w"
  by (induction rs arbitrary: w) (auto split: prod.splits option.splits dest: ReleaseOne_D(3))

lemma recycleOne_reclaim_None:
  "recycleOne_reclaim m res configEntry None w =
     (Inr \<lparr>resource = res, needs = Needs configEntry, fulfillment = []\<rparr>, w)"
  by (simp add: recycleOne_reclaim_def)

lemma recycleOne_reclaim_Some:
  assumes "AcquireByState m (Name res) Leased names w = ((resources, err), w1)"
  shows "fst (recycleOne_reclaim m res configEntry (Some names) w) =
           Inr \<lparr>resource = res\<lparr>UserData := map_option (AList.delete LeasedResources) (UserData res)\<rparr>,
                needs = Needs configEntry, fulfillment = []\<rparr>"
    and "calls (snd (recycleOne_reclaim m res configEntry (Some names) w)) =
           calls w @ [CallAcquireByState (Name res) Leased names]
             @ map (\<lambda>r. CallReleaseOne (Name r) Dirty) resources
             @ [CallUpdateOne (Name res) (State res) (Some [(LeasedResources, [])])]"
    and "pending (snd (recycleOne_reclaim m res configEntry (Some names) w)) = pending w"
  using assms AcquireByState_D(1,3) [OF assms]
  by (auto simp: recycleOne_reclaim_def Let_def recycleOne_release_calls recycleOne_release_pending
      split: prod.splits option.splits dest!: UpdateOne_E)

lemma recycleOne_reclaim_pending:
  "pending (snd (recycleOne_reclaim m res configEntry lr w)) = pending w"
proof (cases lr)
  case None
  then show ?thesis by (simp add: recycleOne_reclaim_None)
next
  case (Some names)
  obtain resources err w1 where "AcquireByState m (Name res) Leased names w = ((resources, err), w1)"
    by (metis surj_pair)
  then show ?thesis using Some recycleOne_reclaim_Some(3) by blast
qed

lemma recycleOne_reclaim_ok:
  "\<exists>req. fst (recycleOne_reclaim m res configEntry lr w) = Inr req
     \<and> needs req = Needs configEntry \<and> fulfillment req = []
     \<and> Name (resource req) = Name res \<and> Type (resource req) = Type res
     \<and> State (resource req) = State res"
proof (cases lr)
  case None
  then show ?thesis by (simp add: recycleOne_reclaim_None)
next
  case (Some names)
  obtain resources err w1 where "AcquireByState m (Name res) Leased names w = ((resources, err), w1)"
    by (metis surj_pair)
  from recycleOne_reclaim_Some(1) [OF this] show ?thesis using Some by simp
qed

lemma recycleOne_reclaim_no_Acquire:
  "\<exists>tr. calls (snd (recycleOne_reclaim m res configEntry lr w)) = calls w @ tr
     \<and> filter isAcquire tr = []"
proof (cases lr)
  case None
  then show ?thesis by (simp add: recycleOne_reclaim_None)
next
  case (Some names)
  obtain resources err w1 where "AcquireByState m (Name res) Leased names w = ((resources, err), w1)"
    by (metis surj_pair)
  from recycleOne_reclaim_Some(2) [OF this] show ?thesis using Some
    by (simp add: filter_empty_conv)
qed

text \<open>
  C3, as it fails. The primary of \<open>req_cleaned\<close> has the key, with the names \<open>b1\<close> and
  \<open>b2\<close> recorded, and the store has no configuration for its type: \<open>recycleOne\<close> returns
  before the reclaim and calls nothing.
\<close>

theorem recycleOne_lease_reclaim_counterexample:
  "UserData (resource req_cleaned) = Some [(''leasedResources'', ''[b1, b2]''), (''greeting'', ''hi'')]
   \<and> LeasedResources = ''leasedResources''
   \<and> yaml_Unmarshal mason_no_config ''[b1, b2]'' = Inr (Some [''b1'', ''b2''])
   \<and> calls (snd (recycleOne mason_no_config (resource req_cleaned) world0)) = []"
  by (simp add: recycleOne_def Let_def mason_no_config_def mason_ok_def req_cleaned_def res_a1_def
      world0_def LeasedResources_def logf_def)


text \<open>
  C3, amended. When the user-data of the primary lacks the key (or is nil),
  \<open>recycleOne\<close> makes no call on the broker. When the configuration lookup for the type
  of the primary succeeds and the key is present with a value that decodes to a list of
  names, \<open>recycleOne\<close> calls \<open>AcquireByState\<close> from the state named after the primary to
  leased with these names, then \<open>ReleaseOne\<close> to dirty on each resource returned, then
  \<open>UpdateOne\<close> on the primary with the key set to the empty string, whatever the broker
  answers; and the request it returns holds the primary with the key deleted.
\<close>

theorem recycleOne_lease_reclaim:
  "((case UserData res of None \<Rightarrow> None | Some ud \<Rightarrow> map_of ud LeasedResources) = None \<longrightarrow>
      calls (snd (recycleOne m res w)) = calls w)
   \<and> (storage_GetConfig m (Type res) = Inr configEntry
      \<and> UserData res = Some ud \<and> map_of ud LeasedResources = Some content
      \<and> yaml_Unmarshal m content = Inr (Some names)
      \<and> client_AcquireByState m (Name res) Leased names (broker w) = ((resources, err), b) \<longrightarrow>
      calls (snd (recycleOne m res w)) =
        calls w @ [CallAcquireByState (Name res) Leased names]
          @ map (\<lambda>r. CallReleaseOne (Name r) Dirty) resources
          @ [CallUpdateOne (Name res) (State res) (Some [(LeasedResources, [])])]
      \<and> fst (recycleOne m res w) =
          Inr \<lparr>resource = res\<lparr>UserData := Some (AList.delete LeasedResources ud)\<rparr>,
               needs = Needs configEntry, fulfillment = []\<rparr>
      \<and> map_of (AList.delete LeasedResources ud) LeasedResources = None)"
proof (intro conjI impI)
  assume "(case UserData res of None \<Rightarrow> None | Some ud \<Rightarrow> map_of ud LeasedResources) = None"
  then show "calls (snd (recycleOne m res w)) = calls w"
    by (auto simp: recycleOne_def Let_def Extract_def recycleOne_reclaim_None split: sum.splits)
next
  assume a: "storage_GetConfig m (Type res) = Inr configEntry
      \<and> UserData res = Some ud \<and> map_of ud LeasedResources = Some content
      \<and> yaml_Unmarshal m content = Inr (Some names)
      \<and> client_AcquireByState m (Name res) Leased names (broker w) = ((resources, err), b)"
  let ?w0 = "logf InfoLevel ''Resource %s is being recycled'' w"
  from a have r: "recycleOne m res w = recycleOne_reclaim m res configEntry (Some names) ?w0"
    by (simp add: recycleOne_def Let_def Extract_def)
  from a obtain w1 where
    s: "AcquireByState m (Name res) Leased names ?w0 = ((resources, err), w1)"
    by (simp add: AcquireByState_def)
  show "calls (snd (recycleOne m res w)) =
        calls w @ [CallAcquireByState (Name res) Leased names]
          @ map (\<lambda>r. CallReleaseOne (Name r) Dirty) resources
          @ [CallUpdateOne (Name res) (State res) (Some [(LeasedResources, [])])]"
    using recycleOne_reclaim_Some(2) [OF s] by (simp add: r)
  show "fst (recycleOne m res w) =
          Inr \<lparr>resource = res\<lparr>UserData := Some (AList.delete LeasedResources ud)\<rparr>,
               needs = Needs configEntry, fulfillment = []\<rparr>"
    using recycleOne_reclaim_Some(1) [OF s] a by (simp add: r)
  show "map_of (AList.delete LeasedResources ud) LeasedResources = None"
    by (simp add: delete_conv')
qed

text \<open>The primary \<open>a1\<close> without user-data, and with the lease of \<open>b1\<close> and \<open>b2\<close>.\<close>

theorem recycleOne_lease_reclaim_witness:
  "(case UserData res_a1 of None \<Rightarrow> None | Some ud \<Rightarrow> map_of ud LeasedResources) = None
   \<and> calls (snd (recycleOne mason_ok res_a1 world0)) = []
   \<and> storage_GetConfig mason_ok (Type (resource req_cleaned)) = Inr config_A
   \<and> UserData (resource req_cleaned)
       = Some [(''leasedResources'', ''[b1, b2]''), (''greeting'', ''hi'')]
   \<and> map_of [(''leasedResources'', ''[b1, b2]''), (''greeting'', ''hi'')] LeasedResources
       = Some ''[b1, b2]''
   \<and> yaml_Unmarshal mason_ok ''[b1, b2]'' = Inr (Some [''b1'', ''b2''])
   \<and> calls (snd (recycleOne mason_ok (resource req_cleaned) world0))
       = [CallAcquireByState ''a1'' Leased [''b1'', ''b2''],
          CallReleaseOne ''b1'' Dirty, CallReleaseOne ''b2'' Dirty,
          CallUpdateOne ''a1'' ''cleaning'' (Some [(LeasedResources, [])])]
   \<and> fst (recycleOne mason_ok (resource req_cleaned) world0)
       = Inr \<lparr>resource = res_a1\<lparr>UserData := Some [(''greeting'', ''hi'')]\<rparr>,
              needs = [(''B'', 2)], fulfillment = []\<rparr>"
proof -
  let ?ud = "[(''leasedResources'', ''[b1, b2]''), (''greeting'', ''hi'')]"
  let ?rs = "[\<lparr>Type = ''B'', Name = ''b1'', State = Leased, UserData = None\<rparr>,
              \<lparr>Type = ''B'', Name = ''b2'', State = Leased, UserData = None\<rparr>]"
  have h1: "(case UserData res_a1 of None \<Rightarrow> None | Some ud \<Rightarrow> map_of ud LeasedResources) = None"
    by (simp add: res_a1_def)
  have h2: "storage_GetConfig mason_ok (Type (resource req_cleaned)) = Inr config_A
      \<and> UserData (resource req_cleaned) = Some ?ud
      \<and> map_of ?ud LeasedResources = Some ''[b1, b2]''
      \<and> yaml_Unmarshal mason_ok ''[b1, b2]'' = Inr (Some [''b1'', ''b2''])
      \<and> client_AcquireByState mason_ok (Name (resource req_cleaned)) Leased [''b1'', ''b2'']
           (broker world0) = ((?rs, None), ())"
    by (simp add: mason_ok_def req_cleaned_def res_a1_def LeasedResources_def)
  note th1 = recycleOne_lease_reclaim
    [where res = res_a1 and m = mason_ok and w = world0, THEN conjunct1, rule_format, OF h1]
  note th2 = recycleOne_lease_reclaim
    [where m = mason_ok and res = "resource req_cleaned" and configEntry = config_A and ud = ?ud
       and content = "''[b1, b2]''" and names = "[''b1'', ''b2'']" and w = world0
       and resources = ?rs and err = None and b = "()", THEN conjunct2, rule_format, OF h2]
  have e: "calls world0 = []" "Name (resource req_cleaned) = ''a1''"
    "State (resource req_cleaned) = ''cleaning''" "Needs config_A = [(''B'', 2)]"
    "(resource req_cleaned)\<lparr>UserData := Some (AList.delete LeasedResources ?ud)\<rparr>
       = res_a1\<lparr>UserData := Some [(''greeting'', ''hi'')]\<rparr>"
    by (simp_all add: world0_def req_cleaned_def res_a1_def config_A_def LeasedResources_def
        AList.delete_eq)
  from th2 have th2': "calls (snd (recycleOne mason_ok (resource req_cleaned) world0))
       = [CallAcquireByState ''a1'' Leased [''b1'', ''b2''],
          CallReleaseOne ''b1'' Dirty, CallReleaseOne ''b2'' Dirty,
          CallUpdateOne ''a1'' ''cleaning'' (Some [(LeasedResources, [])])]
     \<and> fst (recycleOne mason_ok (resource req_cleaned) world0)
       = Inr \<lparr>resource = res_a1\<lparr>UserData := Some [(''greeting'', ''hi'')]\<rparr>,
              needs = [(''B'', 2)], fulfillment = []\<rparr>"
    unfolding e by simp
  from th1 have th1': "calls (snd (recycleOne mason_ok res_a1 world0)) = []"
    unfolding e by simp
  show ?thesis
    using h1 th1' h2 th2' by blast
qed

lemma recycleOne_reclaim_not_Inl [simp]:
  "fst (recycleOne_reclaim m res configEntry lr w) \<noteq> Inl err"
  using recycleOne_reclaim_ok [of m res configEntry lr w] by auto

lemma recycleOne_Inl_calls:
  "fst (recycleOne m res w) = Inl err \<Longrightarrow> calls (snd (recycleOne m res w)) = calls w"
  by (auto simp: recycleOne_def Let_def split: sum.splits error.splits)

lemma recycleOne_error_cases:
  "fst (recycleOne m res w) = Inl err \<longleftrightarrow>
      storage_GetConfig m (Type res) = Inl err
      \<or> (\<exists>configEntry ud content msg.
           storage_GetConfig m (Type res) = Inr configEntry \<and> UserData res = Some ud
           \<and> map_of ud LeasedResources = Some content \<and> yaml_Unmarshal m content = Inl msg
           \<and> err = YamlError msg)"
proof (cases "storage_GetConfig m (Type res)")
  case (Inl e)
  then show ?thesis by (auto simp: recycleOne_def Let_def)
next
  case (Inr configEntry)
  show ?thesis
    using Inr
    by (auto simp: recycleOne_def Let_def Extract_def split: option.splits sum.splits)
qed

lemma recycleOne_pending:
  "pending (snd (recycleOne m res w)) = pending w"
  by (auto simp: recycleOne_def Let_def recycleOne_reclaim_pending split: sum.splits error.splits)

lemma recycleOne_no_Acquire:
  "\<exists>tr. calls (snd (recycleOne m res w)) = calls w @ tr \<and> filter isAcquire tr = []"
proof -
  have "\<And>cfg lr. \<exists>tr. calls (snd (recycleOne_reclaim m res cfg lr
            (logf InfoLevel ''Resource %s is being recycled'' w))) = calls w @ tr
          \<and> filter isAcquire tr = []"
    using recycleOne_reclaim_no_Acquire
      [of m res _ _ "logf InfoLevel ''Resource %s is being recycled'' w"] by simp
  then show ?thesis
    by (auto simp: recycleOne_def Let_def split: sum.splits error.splits)
qed

lemma recycleOne_Inr_fields:
  assumes "fst (recycleOne m res w) = Inr req"
  shows "\<exists>configEntry. storage_GetConfig m (Type res) = Inr configEntry
           \<and> needs req = Needs configEntry \<and> fulfillment req = []
           \<and> Name (resource req) = Name res \<and> Type (resource req) = Type res
           \<and> State (resource req) = State res"
proof (cases "storage_GetConfig m (Type res)")
  case (Inl e)
  with assms show ?thesis by (simp add: recycleOne_def Let_def)
next
  case (Inr configEntry)
  let ?w0 = "logf InfoLevel ''Resource %s is being recycled'' w"
  from assms Inr obtain lr where "fst (recycleOne_reclaim m res configEntry lr ?w0) = Inr req"
    by (auto simp: recycleOne_def Let_def split: sum.splits error.splits)
  with recycleOne_reclaim_ok [of m res configEntry lr ?w0] Inr show ?thesis by auto
qed

text \<open>
  C6. \<open>recycleOne\<close> returns an error exactly when the configuration lookup fails (that
  error) or the value under the key fails to decode (the decoder's error); no answer of
  the broker makes it fail. For a primary just acquired: on an error the Recycler calls
  \<open>ReleaseOne\<close> to dirty on it, nothing else, and leaves the pending queue alone;
  otherwise the request, with the needs of the configuration and an empty fulfillment,
  is appended to the pending queue.
\<close>

theorem recycleOne_error_policy:
  "(fst (recycleOne m res w1) = Inl err \<longleftrightarrow>
      storage_GetConfig m (Type res) = Inl err
      \<or> (\<exists>configEntry ud content msg.
           storage_GetConfig m (Type res) = Inr configEntry \<and> UserData res = Some ud
           \<and> map_of ud LeasedResources = Some content \<and> yaml_Unmarshal m content = Inl msg
           \<and> err = YamlError msg))
   \<and> (Acquire m r Dirty Cleaning w = (Inr res, w1) \<and> fst (recycleOne m res w1) = Inl err \<longrightarrow>
        calls (recycleAll_type m r w) =
          calls w @ [CallAcquire r Dirty Cleaning, CallReleaseOne (Name res) Dirty]
        \<and> pending (recycleAll_type m r w) = pending w)
   \<and> (Acquire m r Dirty Cleaning w = (Inr res, w1) \<and> fst (recycleOne m res w1) = Inr req \<longrightarrow>
        pending (recycleAll_type m r w) = pending w @ [req]
        \<and> (\<exists>configEntry. storage_GetConfig m (Type res) = Inr configEntry
              \<and> needs req = Needs configEntry)
        \<and> fulfillment req = [] \<and> Name (resource req) = Name res)"
proof (intro conjI impI)
  show "fst (recycleOne m res w1) = Inl err \<longleftrightarrow>
      storage_GetConfig m (Type res) = Inl err
      \<or> (\<exists>configEntry ud content msg.
           storage_GetConfig m (Type res) = Inr configEntry \<and> UserData res = Some ud
           \<and> map_of ud LeasedResources = Some content \<and> yaml_Unmarshal m content = Inl msg
           \<and> err = YamlError msg)"
    by (rule recycleOne_error_cases)
next
  assume a: "Acquire m r Dirty Cleaning w = (Inr res, w1) \<and> fst (recycleOne m res w1) = Inl err"
  then obtain w2 where r: "recycleOne m res w1 = (Inl err, w2)"
    by (cases "recycleOne m res w1") auto
  have c2: "calls w2 = calls w1"
    using recycleOne_Inl_calls [of m res w1 err] r by simp
  have p2: "pending w2 = pending w1"
    using recycleOne_pending [of m res w1] r by simp
  from a have c1: "calls w1 = calls w @ [CallAcquire r Dirty Cleaning]" and p1: "pending w1 = pending w"
    using Acquire_E by blast+
  show "calls (recycleAll_type m r w) =
          calls w @ [CallAcquire r Dirty Cleaning, CallReleaseOne (Name res) Dirty]"
    using a r c1 c2
    by (auto simp: recycleAll_type_def split: prod.splits option.splits dest!: ReleaseOne_E)
  show "pending (recycleAll_type m r w) = pending w"
    using a r p1 p2
    by (auto simp: recycleAll_type_def split: prod.splits option.splits dest!: ReleaseOne_E)
next
  assume a: "Acquire m r Dirty Cleaning w = (Inr res, w1) \<and> fst (recycleOne m res w1) = Inr req"
  then obtain w2 where r: "recycleOne m res w1 = (Inr req, w2)"
    by (cases "recycleOne m res w1") auto
  have p2: "pending w2 = pending w1"
    using recycleOne_pending [of m res w1] r by simp
  from a have p1: "pending w1 = pending w"
    using Acquire_E by blast
  show "pending (recycleAll_type m r w) = pending w @ [req]"
    using a r p1 p2 by (simp add: recycleAll_type_def)
  from a recycleOne_Inr_fields [of m res w1 req]
  show "\<exists>configEntry. storage_GetConfig m (Type res) = Inr configEntry \<and> needs req = Needs configEntry"
    and "fulfillment req = []" and "Name (resource req) = Name res"
    by auto
qed

text \<open>A store without the configuration; and a broker that fails \<open>AcquireByState\<close>,
  \<open>ReleaseOne\<close> and \<open>UpdateOne\<close>: three log entries, and the request is pending.\<close>

theorem recycleOne_error_policy_witness:
  "storage_GetConfig mason_no_config (Type res_a1) = Inl (StorageError ''no such config'')
   \<and> fst (recycleOne mason_no_config res_a1 (world0\<lparr>calls := [CallAcquire ''A'' Dirty Cleaning]\<rparr>))
       = Inl (StorageError ''no such config'')
   \<and> Acquire mason_no_config ''A'' Dirty Cleaning world0
       = (Inr res_a1, world0\<lparr>calls := [CallAcquire ''A'' Dirty Cleaning]\<rparr>)
   \<and> calls (recycleAll_type mason_no_config ''A'' world0)
       = [CallAcquire ''A'' Dirty Cleaning, CallReleaseOne ''a1'' Dirty]
   \<and> pending (recycleAll_type mason_no_config ''A'' world0) = []
   \<and> fst (Acquire mason_reclaim_fails ''A'' Dirty Cleaning world0) = Inr (resource req_cleaned)
   \<and> calls (recycleAll_type mason_reclaim_fails ''A'' world0)
       = [CallAcquire ''A'' Dirty Cleaning, CallAcquireByState ''a1'' Leased [''b1'', ''b2''],
          CallReleaseOne ''b1'' Dirty, CallUpdateOne ''a1'' ''cleaning'' (Some [(LeasedResources, [])])]
   \<and> logs (recycleAll_type mason_reclaim_fails ''A'' world0)
       = [(InfoLevel, ''Resource %s is being recycled''),
          (WarnLevel, ''could not acquire any leased resources for %s''),
          (WarnLevel, ''could not release resource %s''),
          (ErrorLevel, ''could not update resource %s with freed leased resources'')]
   \<and> pending (recycleAll_type mason_reclaim_fails ''A'' world0)
       = [\<lparr>resource = res_a1\<lparr>UserData := Some [(''greeting'', ''hi'')]\<rparr>,
           needs = [(''B'', 2)], fulfillment = []\<rparr>]"
proof -
  let ?w1 = "world0\<lparr>calls := [CallAcquire ''A'' Dirty Cleaning]\<rparr>"
  let ?req = "\<lparr>resource = res_a1\<lparr>UserData := Some [(''greeting'', ''hi'')]\<rparr>,
           needs = [(''B'', 2)], fulfillment = []\<rparr>"
  have g: "storage_GetConfig mason_no_config (Type res_a1) = Inl (StorageError ''no such config'')"
    by (simp add: mason_no_config_def mason_ok_def)
  have a1: "Acquire mason_no_config ''A'' Dirty Cleaning world0 = (Inr res_a1, ?w1)"
    by (simp add: Acquire_def mason_no_config_def mason_ok_def res_a1_def world0_def Cleaning_def)
  note th = recycleOne_error_policy
    [where m = mason_no_config and res = res_a1 and ?w1.0 = ?w1
       and err = "StorageError ''no such config''" and r = "''A''" and w = world0]
  from th g have r1: "fst (recycleOne mason_no_config res_a1 ?w1) = Inl (StorageError ''no such config'')"
    by blast
  from th a1 r1 have r2: "calls (recycleAll_type mason_no_config ''A'' world0) =
          calls world0 @ [CallAcquire ''A'' Dirty Cleaning, CallReleaseOne (Name res_a1) Dirty]
        \<and> pending (recycleAll_type mason_no_config ''A'' world0) = pending world0"
    by blast
  have a2: "Acquire mason_reclaim_fails ''A'' Dirty Cleaning world0 = (Inr (resource req_cleaned), ?w1)"
    by (simp add: Acquire_def mason_reclaim_fails_def mason_ok_def req_cleaned_def res_a1_def
        world0_def Cleaning_def)
  have f2: "fst (recycleOne mason_reclaim_fails (resource req_cleaned) ?w1) = Inr ?req"
    by (simp add: recycleOne_def Let_def recycleOne_reclaim_def Extract_def AcquireByState_def
        UpdateOne_def ReleaseOne_def mason_reclaim_fails_def mason_ok_def req_cleaned_def
        res_a1_def res_b1_def world0_def config_A_def LeasedResources_def logf_def AList.delete_eq)
  note th' = recycleOne_error_policy
    [where m = mason_reclaim_fails and res = "resource req_cleaned" and ?w1.0 = ?w1
       and r = "''A''" and w = world0 and req = ?req]
  from th' a2 f2 have r3: "pending (recycleAll_type mason_reclaim_fails ''A'' world0)
      = pending world0 @ [?req]"
    by blast
  have l: "calls (recycleAll_type mason_reclaim_fails ''A'' world0)
       = [CallAcquire ''A'' Dirty Cleaning, CallAcquireByState ''a1'' Leased [''b1'', ''b2''],
          CallReleaseOne ''b1'' Dirty, CallUpdateOne ''a1'' ''cleaning'' (Some [(LeasedResources, [])])]
     \<and> logs (recycleAll_type mason_reclaim_fails ''A'' world0)
       = [(InfoLevel, ''Resource %s is being recycled''),
          (WarnLevel, ''could not acquire any leased resources for %s''),
          (WarnLevel, ''could not release resource %s''),
          (ErrorLevel, ''could not update resource %s with freed leased resources'')]"
    by (simp add: recycleAll_type_def Acquire_def recycleOne_def Let_def recycleOne_reclaim_def
        Extract_def AcquireByState_def UpdateOne_def ReleaseOne_def mason_reclaim_fails_def
        mason_ok_def req_cleaned_def res_a1_def res_b1_def world0_def config_A_def
        LeasedResources_def logf_def Cleaning_def)
  have e: "calls world0 = []" "pending world0 = []" "Name res_a1 = ''a1''"
    by (simp_all add: world0_def res_a1_def)
  show ?thesis
    using g r1 a1 r2 a2 r3 l by (simp add: e)
qed

lemma recycleAll_type_Acquire:
  "\<exists>tr. calls (recycleAll_type m r w) = calls w @ tr
     \<and> filter isAcquire tr = [CallAcquire r Dirty Cleaning]"
proof -
  obtain x w1 where a: "Acquire m r Dirty Cleaning w = (x, w1)"
    by (metis surj_pair)
  then have c1: "calls w1 = calls w @ [CallAcquire r Dirty Cleaning]"
    using Acquire_E by blast
  show ?thesis
  proof (cases x)
    case (Inl err)
    with a c1 show ?thesis by (simp add: recycleAll_type_def)
  next
    case (Inr res)
    obtain y w2 where ro: "recycleOne m res w1 = (y, w2)"
      by (metis surj_pair)
    from recycleOne_no_Acquire [of m res w1] ro obtain tr where
      tr: "calls w2 = calls w1 @ tr" "filter isAcquire tr = []"
      by auto
    show ?thesis
    proof (cases y)
      case (Inl err)
      with a Inr ro c1 tr show ?thesis
        by (auto simp: recycleAll_type_def split: prod.splits option.splits dest!: ReleaseOne_E)
    next
      case (Inr req)
      with a \<open>x = Inr res\<close> ro c1 tr show ?thesis
        by (auto simp: recycleAll_type_def)
    qed
  qed
qed

lemma fold_recycleAll_type_Acquire:
  "\<exists>tr. calls (fold (recycleAll_type m) rs w) = calls w @ tr
     \<and> filter isAcquire tr = map (\<lambda>r. CallAcquire r Dirty Cleaning) rs"
proof (induction rs arbitrary: w)
  case Nil
  show ?case by simp
next
  case (Cons r rs)
  from recycleAll_type_Acquire [of m r w] obtain tr1 where
    1: "calls (recycleAll_type m r w) = calls w @ tr1"
       "filter isAcquire tr1 = [CallAcquire r Dirty Cleaning]"
    by auto
  from Cons.IH [of "recycleAll_type m r w"] obtain tr2 where
    2: "calls (fold (recycleAll_type m) rs (recycleAll_type m r w))
          = calls (recycleAll_type m r w) @ tr2"
       "filter isAcquire tr2 = map (\<lambda>r. CallAcquire r Dirty Cleaning) rs"
    by auto
  from 1 2 have "calls (fold (recycleAll_type m) (r # rs) w) = calls w @ (tr1 @ tr2)
      \<and> filter isAcquire (tr1 @ tr2) = map (\<lambda>r. CallAcquire r Dirty Cleaning) (r # rs)"
    by simp
  then show ?case by blast
qed

text \<open>
  C7. In one iteration of the Recycler over the configurations the store returns, the
  calls of \<open>Acquire\<close> are, in order, one for each configuration, with the name of the
  configuration (the resource type it governs) as the type, from dirty to cleaning. When
  \<open>Acquire\<close> fails (NotFound or any other error), the iteration for that configuration
  adds one log entry at debug level to the world after the call and does nothing else.
\<close>

theorem recycleAll_tick_acquires:
  assumes "storage_GetConfigs m = Inr configs"
  shows "(\<exists>tr. calls (recycleAll_tick m w) = calls w @ tr
            \<and> filter isAcquire tr = map (\<lambda>c. CallAcquire (Config_Name c) Dirty Cleaning) configs)
       \<and> (\<forall>r w1 err w2. Acquire m r Dirty Cleaning w1 = (Inl err, w2) \<longrightarrow>
            recycleAll_type m r w1 = logf DebugLevel ''boskos acquire failed!'' w2)"
proof
  show "\<exists>tr. calls (recycleAll_tick m w) = calls w @ tr
            \<and> filter isAcquire tr = map (\<lambda>c. CallAcquire (Config_Name c) Dirty Cleaning) configs"
    using fold_recycleAll_type_Acquire [of m "map Config_Name configs" w] assms
    by (simp add: recycleAll_tick_def comp_def)
next
  show "\<forall>r w1 err w2. Acquire m r Dirty Cleaning w1 = (Inl err, w2) \<longrightarrow>
            recycleAll_type m r w1 = logf DebugLevel ''boskos acquire failed!'' w2"
    by (simp add: recycleAll_type_def)
qed


text \<open>The configuration \<open>A\<close>, with a broker that has \<open>a1\<close> and with one that has nothing.\<close>

theorem recycleAll_tick_acquires_witness:
  "storage_GetConfigs mason_ok = Inr [config_A]
   \<and> filter isAcquire (calls (recycleAll_tick mason_ok world0)) = [CallAcquire ''A'' Dirty Cleaning]
   \<and> storage_GetConfigs mason_acquire_fails = Inr [config_A]
   \<and> Acquire mason_acquire_fails ''A'' Dirty Cleaning world0
       = (Inl NotFound, world0\<lparr>calls := [CallAcquire ''A'' Dirty Cleaning]\<rparr>)
   \<and> recycleAll_type mason_acquire_fails ''A'' world0
       = world0\<lparr>calls := [CallAcquire ''A'' Dirty Cleaning],
                logs := [(DebugLevel, ''boskos acquire failed!'')]\<rparr>"
proof -
  have g: "storage_GetConfigs mason_ok = Inr [config_A]"
    by (simp add: mason_ok_def)
  have g': "storage_GetConfigs mason_acquire_fails = Inr [config_A]"
    by (simp add: mason_acquire_fails_def mason_ok_def)
  have a: "Acquire mason_acquire_fails ''A'' Dirty Cleaning world0
       = (Inl NotFound, world0\<lparr>calls := [CallAcquire ''A'' Dirty Cleaning]\<rparr>)"
    by (simp add: Acquire_def mason_acquire_fails_def mason_ok_def world0_def)
  from recycleAll_tick_acquires [OF g, of world0]
  obtain tr where tr: "calls (recycleAll_tick mason_ok world0) = calls world0 @ tr"
    "filter isAcquire tr = map (\<lambda>c. CallAcquire (Config_Name c) Dirty Cleaning) [config_A]"
    by blast
  then have 1: "filter isAcquire (calls (recycleAll_tick mason_ok world0))
      = [CallAcquire ''A'' Dirty Cleaning]"
    by (simp add: world0_def config_A_def)
  from recycleAll_tick_acquires [OF g', of world0] a
  have 2: "recycleAll_type mason_acquire_fails ''A'' world0
      = logf DebugLevel ''boskos acquire failed!'' (world0\<lparr>calls := [CallAcquire ''A'' Dirty Cleaning]\<rparr>)"
    by blast
  show ?thesis
    using g 1 g' a 2 by (simp add: logf_def world0_def)
qed

section \<open>The Fulfiller\<close>

lemma updateResources_loop_calls:
  "calls (updateResources_loop m rs w) = calls w @ map (\<lambda>r. CallUpdateOne (Name r) (State r) None) rs"
  by (induction rs arbitrary: w) (auto split: prod.splits option.splits dest!: UpdateOne_E)

lemma updateResources_loop_fulfilled:
  "fulfilled (updateResources_loop m rs w) = fulfilled w"
  by (induction rs arbitrary: w) (auto split: prod.splits option.splits dest!: UpdateOne_E)

lemma updateResources_calls:
  "\<exists>tr. calls (updateResources m req w) = calls w @ tr \<and> list_all isFulfillCall tr"
  by (simp add: updateResources_def updateResources_loop_calls list_all_iff
      del: updateResources_loop.simps)

lemma updateResources_fulfilled:
  "fulfilled (updateResources m req w) = fulfilled w"
  by (simp add: updateResources_def updateResources_loop_fulfilled
      del: updateResources_loop.simps)

lemma fulfillOne_type_calls:
  "fulfillOne_type m rType k remaining req w = (e, k', remaining', req', w') \<Longrightarrow>
     (\<exists>tr. calls w' = calls w @ tr \<and> list_all isFulfillCall tr) \<and> fulfilled w' = fulfilled w"
proof (induction k arbitrary: remaining req w)
  case 0
  then show ?case by (auto split: if_splits)
next
  case (Suc k)
  show ?case
  proof (cases "0 <s index0 remaining rType")
    case False
    with Suc.prems show ?thesis by auto
  next
    case True
    let ?w0 = "updateResources m req w"
    obtain x w1 where a: "Acquire m rType Free Leased ?w0 = (x, w1)"
      by (metis surj_pair)
    from updateResources_calls [of m req w] obtain tr0 where
      tr0: "calls ?w0 = calls w @ tr0" "list_all isFulfillCall tr0"
      by auto
    from a have c1: "calls w1 = calls ?w0 @ [CallAcquire rType Free Leased]"
      and f1: "fulfilled w1 = fulfilled ?w0"
      using Acquire_E by blast+
    show ?thesis
    proof (cases x)
      case (Inl err)
      with Suc.prems True a have
        "fulfillOne_type m rType k remaining req (logf DebugLevel ''boskos acquire failed!'' w1)
           = (e, k', remaining', req', w')"
        by simp
      from Suc.IH [OF this] obtain tr where
        "calls w' = calls w1 @ tr" "list_all isFulfillCall tr" "fulfilled w' = fulfilled w1"
        by auto
      with tr0 c1 f1 have "calls w' = calls w @ (tr0 @ CallAcquire rType Free Leased # tr)
          \<and> list_all isFulfillCall (tr0 @ CallAcquire rType Free Leased # tr)
          \<and> fulfilled w' = fulfilled w"
        by (simp add: updateResources_fulfilled)
      then show ?thesis by blast
    next
      case (Inr res)
      with Suc.prems True a have
        "fulfillOne_type m rType k (AList.update rType (index0 remaining rType - 1) remaining)
           (req\<lparr>fulfillment :=
              AList.update rType
                ((case map_of (fulfillment req) rType of None \<Rightarrow> [] | Some rs \<Rightarrow> rs) @ [res])
                (fulfillment req)\<rparr>) w1
           = (e, k', remaining', req', w')"
        by simp
      from Suc.IH [OF this] obtain tr where
        "calls w' = calls w1 @ tr" "list_all isFulfillCall tr" "fulfilled w' = fulfilled w1"
        by auto
      with tr0 c1 f1 have "calls w' = calls w @ (tr0 @ CallAcquire rType Free Leased # tr)
          \<and> list_all isFulfillCall (tr0 @ CallAcquire rType Free Leased # tr)
          \<and> fulfilled w' = fulfilled w"
        by (simp add: updateResources_fulfilled)
      then show ?thesis by blast
    qed
  qed
qed

lemma fulfillOne_types_calls:
  "fulfillOne_types m rTypes k remaining req w = (e, k', remaining', req', w') \<Longrightarrow>
     (\<exists>tr. calls w' = calls w @ tr \<and> list_all isFulfillCall tr) \<and> fulfilled w' = fulfilled w"
proof (induction rTypes arbitrary: k remaining req w)
  case Nil
  then show ?case by auto
next
  case (Cons rType rTypes)
  obtain e1 k1 rem1 req1 w1 where
    t: "fulfillOne_type m rType k remaining req w = (e1, k1, rem1, req1, w1)"
    by (metis prod_cases5)
  from fulfillOne_type_calls [OF t] obtain tr1 where
    1: "calls w1 = calls w @ tr1" "list_all isFulfillCall tr1" "fulfilled w1 = fulfilled w"
    by auto
  show ?case
  proof (cases e1)
    case (Some err)
    with Cons.prems t have "w' = w1" by simp
    with 1 show ?thesis by blast
  next
    case None
    with Cons.prems t have "fulfillOne_types m rTypes k1 rem1 req1 w1 = (e, k', remaining', req', w')"
      by simp
    from Cons.IH [OF this] obtain tr2 where
      "calls w' = calls w1 @ tr2" "list_all isFulfillCall tr2" "fulfilled w' = fulfilled w1"
      by auto
    with 1 have "calls w' = calls w @ (tr1 @ tr2) \<and> list_all isFulfillCall (tr1 @ tr2)
        \<and> fulfilled w' = fulfilled w"
      by simp
    then show ?thesis by blast
  qed
qed

lemma fulfillOne_acquire_calls:
  assumes "fulfillOne_acquire m k req w = (e, req1, w1)"
  shows "(\<exists>tr. calls w1 = calls w @ tr \<and> list_all isFulfillCall tr) \<and> fulfilled w1 = fulfilled w"
proof -
  let ?rem = "fold (\<lambda>(t, v) acc. AList.update t v acc) (needs req) []"
  obtain e' k' rem' req' w' where
    t: "fulfillOne_types m (map fst ?rem) k ?rem req w = (e', k', rem', req', w')"
    by (metis prod_cases5)
  with assms have "w1 = w'"
    by (simp add: fulfillOne_acquire_def Let_def)
  with fulfillOne_types_calls [OF t] show ?thesis by simp
qed

lemma fulfillAll_release_calls:
  "calls (fulfillAll_release m rs w) = calls w @ map (\<lambda>r. CallReleaseOne (Name r) Free) rs"
  by (induction rs arbitrary: w) (auto split: prod.splits option.splits dest!: ReleaseOne_E)

lemma fulfillAll_release_fulfilled:
  "fulfilled (fulfillAll_release m rs w) = fulfilled w"
  by (induction rs arbitrary: w) (auto split: prod.splits option.splits dest!: ReleaseOne_E)

lemma fulfillAll_release_all_calls:
  "calls (fulfillAll_release_all m tr w) =
     calls w @ map (\<lambda>r. CallReleaseOne (Name r) Free) (concat (map snd tr))"
  by (induction tr arbitrary: w) (auto simp: fulfillAll_release_calls)

lemma fulfillAll_release_all_fulfilled:
  "fulfilled (fulfillAll_release_all m tr w) = fulfilled w"
  by (induction tr arbitrary: w) (auto simp: fulfillAll_release_fulfilled)

lemma isFulfillCall_not_release:
  "list_all isFulfillCall tr \<Longrightarrow> filter isReleaseOne tr = []"
proof (induction tr)
  case Nil
  show ?case by simp
next
  case (Cons c tr)
  then show ?case by (cases c) auto
qed

lemma fulfillOne_calls:
  assumes "fulfillOne m k req w = (e, req1, w1)"
  shows "(\<exists>tr. calls w1 = calls w @ tr \<and> filter isReleaseOne tr = []) \<and> fulfilled w1 = fulfilled w"
proof -
  obtain e0 req0 w0 where a: "fulfillOne_acquire m k req w = (e0, req0, w0)"
    by (metis prod_cases3)
  from fulfillOne_acquire_calls [OF a] obtain tr where
    tr: "calls w0 = calls w @ tr" "list_all isFulfillCall tr" "fulfilled w0 = fulfilled w"
    by auto
  then have nr: "filter isReleaseOne tr = []"
    by (simp add: isFulfillCall_not_release)
  have "(calls w1 = calls w0 \<or> (\<exists>n st ud. calls w1 = calls w0 @ [CallUpdateOne n st ud]))
      \<and> fulfilled w1 = fulfilled w0"
    using assms a
    by (auto simp: fulfillOne_def Let_def split: option.splits if_splits sum.splits prod.splits
        dest!: UpdateOne_E)
  then show ?thesis
  proof (elim conjE disjE exE)
    assume "calls w1 = calls w0" "fulfilled w1 = fulfilled w0"
    with tr nr show ?thesis by auto
  next
    fix n st ud
    assume "calls w1 = calls w0 @ [CallUpdateOne n st ud]" "fulfilled w1 = fulfilled w0"
    with tr nr have "calls w1 = calls w @ (tr @ [CallUpdateOne n st ud])
      \<and> filter isReleaseOne (tr @ [CallUpdateOne n st ud]) = [] \<and> fulfilled w1 = fulfilled w"
      by simp
    then show ?thesis by blast
  qed
qed

text \<open>
  C5. When \<open>fulfillOne\<close> returns the error of the cancelled context, the Fulfiller calls
  \<open>ReleaseOne\<close> to free on every resource of every entry of the request's fulfillment,
  as \<open>fulfillOne\<close> left it; these are the only calls of \<open>ReleaseOne\<close> it makes for the
  request (\<open>fulfillOne\<close> itself makes none, so there is no release of the primary); and
  the fulfilled queue is left as it was.
\<close>

theorem fulfillAll_cancelled:
  assumes "fulfillOne m k req w = (Some ContextCanceled, req1, w1)"
  shows "calls (fulfillAll_recv m k req w) =
           calls w1 @ map (\<lambda>r. CallReleaseOne (Name r) Free) (concat (map snd (fulfillment req1)))
       \<and> (\<exists>tr. calls w1 = calls w @ tr \<and> filter isReleaseOne tr = [])
       \<and> fulfilled (fulfillAll_recv m k req w) = fulfilled w"
  using assms fulfillOne_calls [OF assms]
  by (simp add: fulfillAll_recv_def fulfillAll_release_all_calls fulfillAll_release_all_fulfilled)

text \<open>Two \<open>B\<close> needed, cancellation after one tick: \<open>b1\<close> is acquired, then released.\<close>

theorem fulfillAll_cancelled_witness:
  "fulfillOne mason_ok (Suc 0) req_pending world0
     = (Some ContextCanceled,
        req_pending\<lparr>fulfillment :=
          [(''B'', [\<lparr>Type = ''B'', Name = ''b1'', State = Leased, UserData = None\<rparr>])]\<rparr>,
        world0\<lparr>calls := [CallUpdateOne ''a1'' ''cleaning'' None, CallAcquire ''B'' Free Leased]\<rparr>)
   \<and> calls (fulfillAll_recv mason_ok (Suc 0) req_pending world0)
     = [CallUpdateOne ''a1'' ''cleaning'' None, CallAcquire ''B'' Free Leased,
        CallReleaseOne ''b1'' Free]
   \<and> fulfilled (fulfillAll_recv mason_ok (Suc 0) req_pending world0) = []"
proof -
  let ?req1 = "req_pending\<lparr>fulfillment :=
          [(''B'', [\<lparr>Type = ''B'', Name = ''b1'', State = Leased, UserData = None\<rparr>])]\<rparr>"
  let ?w1 = "world0\<lparr>calls := [CallUpdateOne ''a1'' ''cleaning'' None, CallAcquire ''B'' Free Leased]\<rparr>"
  have h: "fulfillOne mason_ok (Suc 0) req_pending world0 = (Some ContextCanceled, ?req1, ?w1)"
    by (simp add: fulfillOne_def fulfillOne_acquire_def index0_def updateResources_def
        UpdateOne_def Acquire_def mason_ok_def req_pending_def res_a1_def world0_def
        word_sless_alt logf_def)
  have e: "calls ?w1 @ map (\<lambda>r. CallReleaseOne (Name r) Free) (concat (map snd (fulfillment ?req1)))
      = [CallUpdateOne ''a1'' ''cleaning'' None, CallAcquire ''B'' Free Leased,
         CallReleaseOne ''b1'' Free]"
    "fulfilled world0 = []"
    by (simp_all add: world0_def)
  from fulfillAll_cancelled [OF h] have
    "calls (fulfillAll_recv mason_ok (Suc 0) req_pending world0)
       = [CallUpdateOne ''a1'' ''cleaning'' None, CallAcquire ''B'' Free Leased,
          CallReleaseOne ''b1'' Free]
     \<and> fulfilled (fulfillAll_recv mason_ok (Suc 0) req_pending world0) = []"
    unfolding e by simp
  with h show ?thesis by blast
qed

text \<open>
  C9. When the acquisition loops of \<open>fulfillOne\<close> end without an error and the request
  is not fulfilled, \<open>fulfillOne\<close> returns no error, the request and the world as the
  loops left them: it makes no call after the loops, and every \<open>UpdateOne\<close> the loops
  made is a heartbeat with nil user-data.
\<close>

theorem fulfillOne_unfulfilled_noop:
  assumes "fulfillOne_acquire m k req w = (None, req1, w1)" and "\<not> isFulFilled req1"
  shows "fulfillOne m k req w = (None, req1, w1)
       \<and> (\<exists>tr. calls w1 = calls w @ tr
             \<and> (\<forall>name state userData. CallUpdateOne name state userData \<in> set tr \<longrightarrow> userData = None))"
proof
  show "fulfillOne m k req w = (None, req1, w1)"
    using assms by (simp add: fulfillOne_def)
next
  from fulfillOne_acquire_calls [OF assms(1)] obtain tr where
    tr: "calls w1 = calls w @ tr" "list_all isFulfillCall tr"
    by auto
  have "\<forall>name state userData. CallUpdateOne name state userData \<in> set tr \<longrightarrow> userData = None"
    using tr(2) by (auto simp: list_all_iff)
  with tr(1) show "\<exists>tr. calls w1 = calls w @ tr
             \<and> (\<forall>name state userData. CallUpdateOne name state userData \<in> set tr \<longrightarrow> userData = None)"
    by blast
qed


text \<open>A need of zero: the loop for \<open>B\<close> does not run, and \<open>isFulFilled\<close> finds no
  entry for \<open>B\<close>.\<close>

theorem fulfillOne_unfulfilled_noop_witness:
  "fulfillOne_acquire mason_ok (Suc 0) req_zero_need world0 = (None, req_zero_need, world0)
   \<and> \<not> isFulFilled req_zero_need
   \<and> fulfillOne mason_ok (Suc 0) req_zero_need world0 = (None, req_zero_need, world0)"
proof -
  have h: "fulfillOne_acquire mason_ok (Suc 0) req_zero_need world0 = (None, req_zero_need, world0)"
    by (simp add: fulfillOne_acquire_def index0_def req_zero_need_def word_sless_alt)
  have n: "\<not> isFulFilled req_zero_need"
    by (simp add: isFulFilled_def req_zero_need_def)
  from fulfillOne_unfulfilled_noop [OF h n] h n show ?thesis by blast
qed

end
